theory Spec2Isabelle
  imports Main "HOL-Library.Multiset" "HOL-Library.AList"
begin

section \<open>PyIconExtractor: a shallow embedding of \<open>icon_extractor.py\<close>\<close>

text \<open>
  The script drives an external archive tool to list and extract the icon resources of
  Windows executables. The embedding keeps the function names of the source. Python's
  \<open>str\<close> is modelled by \<^typ>\<open>string\<close>, one \<^typ>\<open>char\<close> per code point, so the model
  covers text whose code points are below 256. Exceptions are values of \<open>py_error\<close>;
  a function that can raise returns \<open>py_error + 'a\<close>.
\<close>

subsection \<open>Python text primitives used by the script\<close>

datatype py_error = IndexError | ValueError | OSError | FileExistsError

text \<open>
  The characters for which \<open>str.isspace\<close> holds below code point 256. \<open>str.split()\<close>
  separates fields at them and the regular-expression class \<open>\S\<close> excludes them.
\<close>

definition is_space :: "char \<Rightarrow> bool" where
  "is_space c = (c \<in> set [CHR 0x09, CHR 0x0A, CHR 0x0B, CHR 0x0C, CHR 0x0D,
                            CHR 0x1C, CHR 0x1D, CHR 0x1E, CHR 0x1F, CHR 0x20,
                            CHR 0x85, CHR 0xA0])"

text \<open>\<open>str.split()\<close> without arguments: the maximal runs of non-space characters.\<close>

fun split_ws :: "string \<Rightarrow> string \<Rightarrow> string list" where
  "split_ws cur [] = (if cur = [] then [] else [rev cur])"
| "split_ws cur (c # cs) =
     (if is_space c
      then (if cur = [] then split_ws [] cs else rev cur # split_ws [] cs)
      else split_ws (c # cur) cs)"

definition py_split :: "string \<Rightarrow> string list" where
  "py_split s = split_ws [] s"

text \<open>\<open>str.split("\n")\<close>: the pieces between line feeds, empty pieces included.\<close>

fun split_nl :: "string \<Rightarrow> string \<Rightarrow> string list" where
  "split_nl cur [] = [rev cur]"
| "split_nl cur (c # cs) =
     (if c = CHR 0x0A then rev cur # split_nl [] cs else split_nl (c # cur) cs)"

definition py_split_lines :: "string \<Rightarrow> string list" where
  "py_split_lines s = split_nl [] s"

text \<open>List indexing with Python's negative indices; out of range raises \<open>IndexError\<close>.\<close>

definition py_getitem :: "'a list \<Rightarrow> int \<Rightarrow> py_error + 'a" where
  "py_getitem xs i =
     (if 0 \<le> i \<and> i < int (length xs) then Inr (xs ! nat i)
      else if i < 0 \<and> - i \<le> int (length xs) then Inr (xs ! nat (int (length xs) + i))
      else Inl IndexError)"

text \<open>
  \<open>int(s)\<close> on a field: an optional sign, then decimal digits, where single underscores
  may stand between digits. Anything else raises \<open>ValueError\<close> (here \<open>None\<close>), and so does
  a text with more digits than \<open>sys.int_info.default_max_str_digits\<close>, the bound of an
  interpreter that was not configured otherwise; every digit counts, leading zeros too.
  A field has no white space to strip.
\<close>

definition max_str_digits :: nat where
  "max_str_digits = 4300"

definition is_digit :: "char \<Rightarrow> bool" where
  "is_digit c = (c \<in> set ''0123456789'')"

definition digit_val :: "char \<Rightarrow> int" where
  "digit_val c = int (of_char c) - 48"

text \<open>
  \<open>py_digits acc after_digit s\<close> reads the digits of \<open>s\<close> into \<open>acc\<close>;
  \<open>after_digit\<close> tells whether the character just read was a digit, which is where an
  underscore may follow and where the literal may end.
\<close>

fun py_digits :: "int \<Rightarrow> bool \<Rightarrow> string \<Rightarrow> int option" where
  "py_digits acc after_digit [] = (if after_digit then Some acc else None)"
| "py_digits acc after_digit (c # cs) =
     (if is_digit c then py_digits (10 * acc + digit_val c) True cs
      else if c = CHR ''_'' \<and> after_digit then py_digits acc False cs
      else None)"

definition py_int :: "string \<Rightarrow> int option" where
  "py_int s =
     (if max_str_digits < length (filter is_digit s) then None
      else
        case s of
          [] \<Rightarrow> None
        | c # cs \<Rightarrow>
            if c = CHR ''-'' then map_option uminus (py_digits 0 False cs)
            else if c = CHR ''+'' then py_digits 0 False cs
            else py_digits 0 False s)"

subsection \<open>Resource Lister: \<open>find_icons_in_exe\<close>\<close>

text \<open>
  \<open>re.search(r".+[\/\\]ICON[\/\\]\S+", line)\<close> succeeds when, somewhere after at least
  one character other than a line feed, the line reads: separator, \<open>ICON\<close>, separator,
  a non-space character.
\<close>

definition is_sep :: "char \<Rightarrow> bool" where
  "is_sep c = (c = CHR ''/'' \<or> c = CHR 0x5C)"

fun icon_here :: "string \<Rightarrow> bool" where
  "icon_here (s1 # c1 # c2 # c3 # c4 # s2 # x # rest) =
     (is_sep s1 \<and> [c1, c2, c3, c4] = ''ICON'' \<and> is_sep s2 \<and> \<not> is_space x)"
| "icon_here _ = False"

fun icon_search :: "string \<Rightarrow> bool" where
  "icon_search [] = False"
| "icon_search (c # cs) = ((c \<noteq> CHR 0x0A \<and> icon_here cs) \<or> icon_search cs)"

type_synonym icon_entry = "string \<times> int"

text \<open>
  The body of the loop over the lines: \<open>None\<close> for a line that is skipped, the entry
  \<open>(fields[-1], int(fields[-3]))\<close> for a line that matches.
\<close>

definition parse_icon_line :: "string \<Rightarrow> py_error + icon_entry option" where
  "parse_icon_line line =
     (if \<not> icon_search line then Inr None
      else
        let fields = py_split line in
        case py_getitem fields (- 1) of
          Inl e \<Rightarrow> Inl e
        | Inr icon_file_path \<Rightarrow>
            (case py_getitem fields (- 3) of
               Inl e \<Rightarrow> Inl e
             | Inr size_field \<Rightarrow>
                 (case py_int size_field of
                    None \<Rightarrow> Inl ValueError
                  | Some icon_file_size \<Rightarrow> Inr (Some (icon_file_path, icon_file_size)))))"

fun parse_icon_lines :: "icon_entry list \<Rightarrow> string list \<Rightarrow> py_error + icon_entry list" where
  "parse_icon_lines icon_files [] = Inr icon_files"
| "parse_icon_lines icon_files (line # lines) =
     (case parse_icon_line line of
        Inl e \<Rightarrow> Inl e
      | Inr None \<Rightarrow> parse_icon_lines icon_files lines
      | Inr (Some entry) \<Rightarrow> parse_icon_lines (icon_files @ [entry]) lines)"

text \<open>
  \<open>icon_files.sort(key=lambda entry: entry[1], reverse=True)\<close>. Python's sort is stable,
  and with \<open>reverse=True\<close> it reverses the list, sorts it stably in ascending order and
  reverses the result, so that equal keys keep their original order.
\<close>

definition sort_largest_first :: "icon_entry list \<Rightarrow> icon_entry list" where
  "sort_largest_first icon_files = rev (sort_key snd (rev icon_files))"

type_synonym path = "string list"

record completed_process =
  returncode :: int
  stdout :: string

datatype msg =
    Failed_to_list path
  | No_icon_files
  | Extracting_icon nat string int
  | Failed_to_extract_file string path
  | Guessing_extension
  | Failed_to_guess string
  | Failed_to_extract
  | Saving_icon string
  | Processing_file nat path
  | Summary nat nat
  | No_file_exists path
  | Input_path nat path
  | Found_executable nat path

text \<open>
  The result of the list command is a parameter. The function returns the messages it
  prints together with the list of entries.
\<close>

definition find_icons_in_exe ::
  "(path \<Rightarrow> completed_process) \<Rightarrow> path \<Rightarrow> py_error + (msg list \<times> icon_entry list)" where
  "find_icons_in_exe run_list exe_path =
     (let result = run_list exe_path; output = stdout result in
      if returncode result \<noteq> 0 then Inr ([Failed_to_list exe_path], [])
      else
        case parse_icon_lines [] (py_split_lines output) of
          Inl e \<Rightarrow> Inl e
        | Inr icon_files \<Rightarrow> Inr ([], sort_largest_first icon_files))"

subsection \<open>Names, stems and suffixes (\<open>pathlib\<close>)\<close>

text \<open>
  A file name is a \<^typ>\<open>string\<close>; an absolute path is the list of its components.
  \<open>str.lower()\<close> on code points below 256 changes the letters \<open>A\<close> to \<open>Z\<close> and the
  accented capitals \<open>0xC0\<close> to \<open>0xDE\<close> other than the multiplication sign \<open>0xD7\<close>.
\<close>

definition lower_char :: "char \<Rightarrow> char" where
  "lower_char c =
     (let n = (of_char c :: nat) in
      if (65 \<le> n \<and> n \<le> 90) \<or> (192 \<le> n \<and> n \<le> 222 \<and> n \<noteq> 215)
      then char_of (n + 32) else c)"

definition py_lower :: "string \<Rightarrow> string" where
  "py_lower s = map lower_char s"

text \<open>\<open>name.rfind('.')\<close>: the index of the last dot, or \<open>-1\<close>.\<close>

definition rfind_dot :: "string \<Rightarrow> int" where
  "rfind_dot name =
     (if CHR ''.'' \<in> set name
      then int (length name) - 1 - int (length (takeWhile (\<lambda>c. c \<noteq> CHR ''.'') (rev name)))
      else - 1)"

text \<open>\<open>PurePath.suffix\<close> and \<open>PurePath.stem\<close> of a name.\<close>

definition py_suffix :: "string \<Rightarrow> string" where
  "py_suffix name =
     (let i = rfind_dot name in
      if 0 < i \<and> i < int (length name) - 1 then drop (nat i) name else [])"

definition py_stem :: "string \<Rightarrow> string" where
  "py_stem name =
     (let i = rfind_dot name in
      if 0 < i \<and> i < int (length name) - 1 then take (nat i) name else name)"

text \<open>
  \<open>Path(s).name\<close> for a relative path text without a drive prefix: the text is cut at
  forward and backward slashes, empty components and \<open>.\<close> components are dropped, and
  the name is the last component left, or the empty string.
\<close>

fun split_sep :: "string \<Rightarrow> string \<Rightarrow> string list" where
  "split_sep cur [] = [rev cur]"
| "split_sep cur (c # cs) =
     (if is_sep c then rev cur # split_sep [] cs else split_sep (c # cur) cs)"

definition path_parts :: "string \<Rightarrow> string list" where
  "path_parts s = filter (\<lambda>part. part \<noteq> [] \<and> part \<noteq> ''.'') (split_sep [] s)"

definition path_name :: "string \<Rightarrow> string" where
  "path_name s = (if path_parts s = [] then [] else last (path_parts s))"

definition name_of :: "path \<Rightarrow> string" where
  "name_of p = (if p = [] then [] else last p)"

text \<open>The decimal text of a positive counter, as an f-string renders it.\<close>

definition digit_char :: "nat \<Rightarrow> char" where
  "digit_char d = ''0123456789'' ! d"

fun show_nat :: "nat \<Rightarrow> string" where
  "show_nat n = (if n < 10 then [digit_char n] else show_nat (n div 10) @ [digit_char (n mod 10)])"

declare show_nat.simps [simp del]

subsection \<open>The environment and the state of a run\<close>

text \<open>
  The collaborators outside the script are parameters: the archive tool's list command,
  its extract command (\<open>None\<close> is a non-zero exit status; otherwise the bytes of the
  entry, which the tool has written into the staging directory under the entry's base
  name), the format sniffer \<open>imghdr.what\<close>, the shortcut resolver and \<open>shutil.which\<close>.
\<close>

type_synonym content = string

datatype img_format =
  Jpeg | Png | Gif | Tiff | Rgb | Pbm | Pgm | Ppm | Rast | Xbm | Bmp | Webp | Exr

fun format_name :: "img_format \<Rightarrow> string" where
  "format_name Jpeg = ''jpeg''"
| "format_name Png = ''png''"
| "format_name Gif = ''gif''"
| "format_name Tiff = ''tiff''"
| "format_name Rgb = ''rgb''"
| "format_name Pbm = ''pbm''"
| "format_name Pgm = ''pgm''"
| "format_name Ppm = ''ppm''"
| "format_name Rast = ''rast''"
| "format_name Xbm = ''xbm''"
| "format_name Bmp = ''bmp''"
| "format_name Webp = ''webp''"
| "format_name Exr = ''exr''"

record env =
  sevenzip_list :: "path \<Rightarrow> completed_process"
  sevenzip_extract :: "path \<Rightarrow> string \<Rightarrow> content option"
  imghdr_what :: "content \<Rightarrow> img_format option"
  shortcut_target :: "path \<Rightarrow> path"
  which_7z :: "path option"

text \<open>
  The state a run changes: the messages printed so far, the staging directory
  \<open>temp-output\<close> (whether it exists, and its files), and the other entries of the output
  directory. A directory is the finite list of its entries, each a name with the bytes
  stored under it; \<open>map_of\<close> looks a name up, \<open>AList.update\<close> writes a file and
  \<open>AList.delete\<close> removes one.
\<close>

type_synonym directory = "(string \<times> content) list"

record world =
  log :: "msg list"
  staging_exists :: bool
  staging :: directory
  outdir :: directory

definition say_all :: "msg list \<Rightarrow> world \<Rightarrow> world" where
  "say_all msgs w = w\<lparr>log := log w @ msgs\<rparr>"

definition say :: "msg \<Rightarrow> world \<Rightarrow> world" where
  "say m w = say_all [m] w"

subsection \<open>Resource Extractor: \<open>extract_icon_from_exe\<close>\<close>

text \<open>
  The result is the name of the staged file, or \<open>None\<close>. When the computed name is empty
  or \<open>..\<close> the path denotes a directory, which \<open>imghdr.what\<close> cannot open. \<open>Path.rename\<close>
  on Windows raises when the new name is taken.
\<close>

definition extract_icon_from_exe ::
  "env \<Rightarrow> path \<Rightarrow> string \<Rightarrow> world \<Rightarrow> py_error + (string option \<times> world)" where
  "extract_icon_from_exe ev exe_path inner_icon_file_path w =
     (case sevenzip_extract ev exe_path inner_icon_file_path of
        None \<Rightarrow> Inr (None, say (Failed_to_extract_file inner_icon_file_path exe_path) w)
      | Some data \<Rightarrow>
          let name = path_name inner_icon_file_path in
          if name = [] \<or> name = ''..'' then Inl OSError
          else
            let w1 = w\<lparr>staging := AList.update name data (staging w)\<rparr> in
            if py_lower (py_suffix name) = []
            then
              let w2 = say Guessing_extension w1 in
              (case imghdr_what ev data of
                 Some extension \<Rightarrow>
                   let renamed = name @ ''.'' @ format_name extension in
                   if map_of (staging w2) renamed \<noteq> None then Inl FileExistsError
                   else Inr (Some renamed,
                             w2\<lparr>staging := AList.update renamed data
                                                (AList.delete name (staging w2))\<rparr>)
               | None \<Rightarrow> Inr (None, say (Failed_to_guess name) w2))
            else Inr (Some name, w1))"

subsection \<open>Extraction Orchestrator: \<open>extract_icons\<close>\<close>

text \<open>
  \<open>target_path.exists()\<close> for a name in the output directory: an entry of that name, or
  the staging directory itself.
\<close>

definition target_exists :: "world \<Rightarrow> string \<Rightarrow> bool" where
  "target_exists w name =
     (map_of (outdir w) name \<noteq> None \<or> (name = ''temp-output'' \<and> staging_exists w))"

text \<open>
  The \<open>while target_path.exists()\<close> loop. It is a partial function: \<open>None\<close> stands for a
  loop that never leaves.
\<close>

partial_function (option) probe_target ::
  "(string \<Rightarrow> bool) \<Rightarrow> string \<Rightarrow> nat \<Rightarrow> string \<Rightarrow> string option" where
  "probe_target exists original_stem i target_name =
     (if exists target_name
      then probe_target exists original_stem (i + 1)
             (original_stem @ '' ('' @ show_nat (i + 1) @ '')'' @ py_suffix target_name)
      else Some target_name)"

declare probe_target.simps [code]

datatype outcome = Raised py_error | Diverged

text \<open>
  \<open>shutil.move\<close> of a staged file to a free name of the output directory; a missing
  source raises.
\<close>

definition move_to_output :: "string \<Rightarrow> string \<Rightarrow> world \<Rightarrow> py_error + world" where
  "move_to_output icon_name target_name w =
     (case map_of (staging w) icon_name of
        None \<Rightarrow> Inl OSError
      | Some data \<Rightarrow>
          Inr (w\<lparr>staging := AList.delete icon_name (staging w),
                 outdir := AList.update target_name data (outdir w)\<rparr>))"

text \<open>
  The loop of \<open>extract_icons\<close> over the entries from \<open>file_index\<close> on, with the counter
  \<open>num_icons\<close>; the function itself starts it at index 1 with counter 0.
\<close>

fun extract_icons_loop ::
  "env \<Rightarrow> path \<Rightarrow> bool \<Rightarrow> nat \<Rightarrow> nat \<Rightarrow> icon_entry list \<Rightarrow> world \<Rightarrow> outcome + (nat \<times> world)" where
  "extract_icons_loop ev exe_file_path extract_largest_only file_index num_icons [] w =
     Inr (num_icons, w)"
| "extract_icons_loop ev exe_file_path extract_largest_only file_index num_icons
     ((inner_icon_file_path, icon_file_size) # rest) w =
     (case extract_icon_from_exe ev exe_file_path inner_icon_file_path
             (say (Extracting_icon file_index inner_icon_file_path icon_file_size) w) of
        Inl e \<Rightarrow> Inl (Raised e)
      | Inr (None, w1) \<Rightarrow>
          extract_icons_loop ev exe_file_path extract_largest_only (file_index + 1) num_icons rest
            (say Failed_to_extract w1)
      | Inr (Some icon_name, w1) \<Rightarrow>
          let target_name = py_stem (name_of exe_file_path) @ py_suffix icon_name in
          (case probe_target (target_exists w1) (py_stem target_name) 1 target_name of
             None \<Rightarrow> Inl Diverged
           | Some free_name \<Rightarrow>
               (case move_to_output icon_name free_name (say (Saving_icon free_name) w1) of
                  Inl e \<Rightarrow> Inl (Raised e)
                | Inr w2 \<Rightarrow>
                    if extract_largest_only then Inr (num_icons + 1, w2)
                    else extract_icons_loop ev exe_file_path extract_largest_only
                           (file_index + 1) (num_icons + 1) rest w2)))"

definition extract_icons ::
  "env \<Rightarrow> path \<Rightarrow> icon_entry list \<Rightarrow> bool \<Rightarrow> world \<Rightarrow> outcome + (nat \<times> world)" where
  "extract_icons ev exe_file_path icon_files extract_largest_only w =
     extract_icons_loop ev exe_file_path extract_largest_only 1 0 icon_files w"

subsection \<open>Path Collector: \<open>find_files_with_extensions\<close>\<close>

text \<open>
  The file tree that the collector reads. \<open>path.glob("*")\<close> yields the children of a
  directory and \<open>path.glob("**/*")\<close> everything below it.
\<close>

datatype node = File | Dir "(string \<times> node) list"

fun lookup :: "node \<Rightarrow> path \<Rightarrow> node option" where
  "lookup n [] = Some n"
| "lookup n (c # cs) =
     (case n of
        File \<Rightarrow> None
      | Dir entries \<Rightarrow> (case map_of entries c of None \<Rightarrow> None | Some child \<Rightarrow> lookup child cs))"

definition path_exists :: "node \<Rightarrow> path \<Rightarrow> bool" where
  "path_exists root p = (lookup root p \<noteq> None)"

definition is_dir :: "node \<Rightarrow> path \<Rightarrow> bool" where
  "is_dir root p = (case lookup root p of Some (Dir entries) \<Rightarrow> True | _ \<Rightarrow> False)"

definition is_file :: "node \<Rightarrow> path \<Rightarrow> bool" where
  "is_file root p = (lookup root p = Some File)"

fun below :: "path \<Rightarrow> node \<Rightarrow> path list" where
  "below p File = []"
| "below p (Dir entries) =
     concat (map (\<lambda>entry. (p @ [fst entry]) # below (p @ [fst entry]) (snd entry)) entries)"

definition glob_star :: "node \<Rightarrow> path \<Rightarrow> path list" where
  "glob_star root p =
     (case lookup root p of Some (Dir entries) \<Rightarrow> map (\<lambda>entry. p @ [fst entry]) entries | _ \<Rightarrow> [])"

definition glob_rec :: "node \<Rightarrow> path \<Rightarrow> path list" where
  "glob_rec root p = (case lookup root p of Some n \<Rightarrow> below p n | None \<Rightarrow> [])"

text \<open>
  The result set is kept as a list without repetitions; \<open>add_path\<close> is \<open>set.add\<close>.
  The order in which Python walks a set is not fixed, and nothing below depends on it.
\<close>

definition add_path :: "path \<Rightarrow> path list \<Rightarrow> path list" where
  "add_path p found = (if p \<in> set found then found else found @ [p])"

text \<open>The inner loop over the candidates of one input path.\<close>

fun filter_paths ::
  "(path \<Rightarrow> path) \<Rightarrow> string set \<Rightarrow> bool \<Rightarrow> path list \<Rightarrow> path list \<Rightarrow> path list" where
  "filter_paths resolve file_extensions resolve_shortcuts filtered_file_paths [] =
     filtered_file_paths"
| "filter_paths resolve file_extensions resolve_shortcuts filtered_file_paths (subpath # rest) =
     (if py_lower (py_suffix (name_of subpath)) \<in> file_extensions
      then filter_paths resolve file_extensions resolve_shortcuts
             (add_path subpath filtered_file_paths) rest
      else if resolve_shortcuts \<and> py_lower (py_suffix (name_of subpath)) = ''.lnk''
      then
        let target_path = resolve subpath in
        if py_lower (py_suffix (name_of target_path)) \<in> file_extensions
        then filter_paths resolve file_extensions resolve_shortcuts
               (add_path target_path filtered_file_paths) rest
        else filter_paths resolve file_extensions resolve_shortcuts filtered_file_paths rest
      else filter_paths resolve file_extensions resolve_shortcuts filtered_file_paths rest)"

text \<open>The candidates of one existing input path.\<close>

definition candidates :: "node \<Rightarrow> bool \<Rightarrow> path \<Rightarrow> path list" where
  "candidates root recursive_search p =
     (if is_dir root p
      then filter (is_file root) (if recursive_search then glob_rec root p else glob_star root p)
      else [p])"

fun find_files_loop ::
  "node \<Rightarrow> (path \<Rightarrow> path) \<Rightarrow> string set \<Rightarrow> bool \<Rightarrow> bool \<Rightarrow> msg list \<times> path list \<Rightarrow>
   path list \<Rightarrow> msg list \<times> path list" where
  "find_files_loop root resolve file_extensions recursive_search resolve_shortcuts acc [] = acc"
| "find_files_loop root resolve file_extensions recursive_search resolve_shortcuts
     (msgs, filtered_file_paths) (p # rest) =
     (if \<not> path_exists root p
      then find_files_loop root resolve file_extensions recursive_search resolve_shortcuts
             (msgs @ [No_file_exists p], filtered_file_paths) rest
      else find_files_loop root resolve file_extensions recursive_search resolve_shortcuts
             (msgs, filter_paths resolve file_extensions resolve_shortcuts filtered_file_paths
                      (candidates root recursive_search p)) rest)"

definition find_files_with_extensions ::
  "node \<Rightarrow> (path \<Rightarrow> path) \<Rightarrow> path list \<Rightarrow> string set \<Rightarrow> bool \<Rightarrow> bool \<Rightarrow> msg list \<times> path list" where
  "find_files_with_extensions root resolve paths file_extensions recursive_search resolve_shortcuts =
     find_files_loop root resolve file_extensions recursive_search resolve_shortcuts ([], []) paths"

subsection \<open>Run Controller: \<open>run_extraction\<close> and the command line\<close>

text \<open>The loop over the executables found, from \<open>file_index\<close> on.\<close>

fun process_exes ::
  "env \<Rightarrow> bool \<Rightarrow> nat \<Rightarrow> nat \<Rightarrow> path list \<Rightarrow> world \<Rightarrow> outcome + (nat \<times> world)" where
  "process_exes ev extract_largest_only file_index num_icons [] w = Inr (num_icons, w)"
| "process_exes ev extract_largest_only file_index num_icons (exe_file_path # rest) w =
     (case find_icons_in_exe (sevenzip_list ev) exe_file_path of
        Inl e \<Rightarrow> Inl (Raised e)
      | Inr (msgs, icon_files) \<Rightarrow>
          let w1 = say_all msgs (say (Processing_file file_index exe_file_path) w) in
          if length icon_files = 0
          then process_exes ev extract_largest_only (file_index + 1) num_icons rest
                 (say No_icon_files w1)
          else
            (case extract_icons ev exe_file_path icon_files extract_largest_only w1 of
               Inl e \<Rightarrow> Inl e
             | Inr (n, w2) \<Rightarrow>
                 process_exes ev extract_largest_only (file_index + 1) (num_icons + n) rest w2))"

text \<open>
  \<open>run_extraction\<close>: the executables are collected with the collector's default flags,
  whatever exists at the path of the staging directory goes to the trash and a fresh
  staging directory is made, the executables are processed, and \<open>rmdir\<close> removes the
  staging directory, which raises unless the directory is empty.
  Input paths are absolute already, so resolving them changes nothing. Printed headings
  that carry no data are left out of the log.
\<close>

definition found_executables :: "node \<Rightarrow> env \<Rightarrow> path list \<Rightarrow> msg list \<times> path list" where
  "found_executables root ev input_paths =
     find_files_with_extensions root (shortcut_target ev) input_paths {''.exe''} True True"

definition rmdir_staging :: "world \<Rightarrow> py_error + world" where
  "rmdir_staging w =
     (if staging w = [] then Inr (w\<lparr>staging_exists := False\<rparr>) else Inl OSError)"

definition run_extraction ::
  "node \<Rightarrow> env \<Rightarrow> path list \<Rightarrow> bool \<Rightarrow> world \<Rightarrow> outcome + world" where
  "run_extraction root ev input_paths extract_largest_only w =
     (let (msgs, exe_file_paths) = found_executables root ev input_paths;
          w0 = say_all (map (\<lambda>(i, p). Found_executable i p) (enumerate 1 exe_file_paths))
                 (say_all msgs
                   (say_all (map (\<lambda>(i, p). Input_path i p) (enumerate 1 input_paths)) w));
          w1 = w0\<lparr>staging_exists := True, staging := [],
                  outdir := AList.delete ''temp-output'' (outdir w0)\<rparr>
      in case process_exes ev extract_largest_only 1 0 exe_file_paths w1 of
           Inl e \<Rightarrow> Inl e
         | Inr (num_icons, w2) \<Rightarrow>
             (case rmdir_staging w2 of
                Inl e \<Rightarrow> Inl (Raised e)
              | Inr w3 \<Rightarrow> Inr (say (Summary num_icons (length exe_file_paths)) w3)))"

text \<open>
  The command line. \<open>recursive_search\<close> is read from the arguments and, as in the
  source, never handed to \<open>run_extraction\<close>. The result \<open>None\<close> is \<open>exit(1)\<close>.
\<close>

record args =
  seven_zip :: "path option"
  recursive :: bool
  largest :: bool
  paths :: "path list"

definition try_find_7zip :: "node \<Rightarrow> env \<Rightarrow> path option" where
  "try_find_7zip root ev =
     (case which_7z ev of
        Some p \<Rightarrow> Some p
      | None \<Rightarrow>
          if path_exists root [''C:'', ''Program Files'', ''7-Zip'', ''7z.exe'']
          then Some [''C:'', ''Program Files'', ''7-Zip'', ''7z.exe'']
          else if path_exists root [''C:'', ''Program Files (x86)'', ''7-Zip'', ''7z.exe'']
          then Some [''C:'', ''Program Files (x86)'', ''7-Zip'', ''7z.exe'']
          else None)"

definition main :: "node \<Rightarrow> env \<Rightarrow> args \<Rightarrow> world \<Rightarrow> (outcome + world) option" where
  "main root ev a w =
     (case (case seven_zip a of Some p \<Rightarrow> Some p | None \<Rightarrow> try_find_7zip root ev) of
        None \<Rightarrow> None
      | Some path_7zip \<Rightarrow>
          let recursive_search = recursive a;
              extract_largest_only = largest a;
              input_paths = paths a
          in Some (run_extraction root ev input_paths extract_largest_only w))"

subsection \<open>Reference notions of the specification and example data\<close>

text \<open>
  The notions of the specification are written down on their own, without the functions
  of the parser. A text is the join of its lines, with a line feed between neighbours.
\<close>

fun join_with :: "char \<Rightarrow> string list \<Rightarrow> string" where
  "join_with c [] = []"
| "join_with c [x] = x"
| "join_with c (x # y # zs) = x @ c # join_with c (y # zs)"

text \<open>
  A line with whitespace-delimited fields is some white space, then the fields, each
  followed by white space; a field is not empty and holds no white space, and only the
  last field may be followed by nothing.
\<close>

definition fields_text :: "string \<Rightarrow> (string \<times> string) list \<Rightarrow> string" where
  "fields_text lead pairs = lead @ concat (map (\<lambda>(field, gap). field @ gap) pairs)"

definition fields_wf :: "string \<Rightarrow> (string \<times> string) list \<Rightarrow> bool" where
  "fields_wf lead pairs =
     (list_all is_space lead \<and>
      list_all (\<lambda>(field, gap). field \<noteq> [] \<and> list_all (\<lambda>c. \<not> is_space c) field \<and>
                                list_all is_space gap) pairs \<and>
      list_all (\<lambda>(field, gap). gap \<noteq> []) (butlast pairs))"

text \<open>
  The value of a decimal numeral, from its last digit upwards. An integer literal is a
  sign or none, then groups of digits with one underscore between neighbours, of no more
  digits than the bound; its value is that of the digits, negated after a minus sign.
\<close>

fun lsd_value :: "string \<Rightarrow> int" where
  "lsd_value [] = 0"
| "lsd_value (d # ds) = digit_val d + 10 * lsd_value ds"

definition decimal_value :: "string \<Rightarrow> int" where
  "decimal_value s = lsd_value (rev s)"

text \<open>A line has an \<open>ICON\<close> path segment when \<open>ICON\<close> stands between two separators.\<close>

fun segment_here :: "string \<Rightarrow> bool" where
  "segment_here (s1 # c1 # c2 # c3 # c4 # s2 # rest) =
     (is_sep s1 \<and> [c1, c2, c3, c4] = ''ICON'' \<and> is_sep s2)"
| "segment_here _ = False"

fun has_icon_segment :: "string \<Rightarrow> bool" where
  "has_icon_segment [] = False"
| "has_icon_segment (c # cs) = (segment_here (c # cs) \<or> has_icon_segment cs)"

text \<open>A decimal integer: one or more digits.\<close>

definition is_decimal :: "string \<Rightarrow> bool" where
  "is_decimal s = (s \<noteq> [] \<and> list_all is_digit s)"

definition literal_wf :: "string \<Rightarrow> string list \<Rightarrow> bool" where
  "literal_wf sign_text groups =
     (sign_text \<in> set [[], ''+'', ''-''] \<and> groups \<noteq> [] \<and> list_all is_decimal groups \<and>
      length (concat groups) \<le> max_str_digits)"

definition literal_text :: "string \<Rightarrow> string list \<Rightarrow> string" where
  "literal_text sign_text groups = sign_text @ join_with CHR ''_'' groups"

definition literal_value :: "string \<Rightarrow> string list \<Rightarrow> int" where
  "literal_value sign_text groups =
     (if sign_text = ''-'' then - decimal_value (concat groups) else decimal_value (concat groups))"

definition int_literal :: "string \<Rightarrow> int \<Rightarrow> bool" where
  "int_literal field v =
     (\<exists>sign_text groups. literal_wf sign_text groups \<and> field = literal_text sign_text groups \<and>
                   v = literal_value sign_text groups)"

text \<open>
  A line matches the \<open>ICON\<close> path pattern when it reads: anything, a character other than
  a line feed, a separator, \<open>ICON\<close>, a separator, a character that is not white space,
  anything.
\<close>

definition icon_pattern :: "string \<Rightarrow> bool" where
  "icon_pattern line =
     (\<exists>pre c s1 s2 x post.
        line = pre @ c # s1 # ''ICON'' @ s2 # x # post \<and> c \<noteq> CHR 0x0A \<and>
        is_sep s1 \<and> is_sep s2 \<and> \<not> is_space x)"

text \<open>
  The entry the specification prescribes for a line: the last whitespace-delimited field,
  and the integer value of the third field counted from the end (Python's index \<open>-3\<close>,
  the \<open>Size\<close> column of the listing).
\<close>

definition line_entry :: "string \<Rightarrow> icon_entry \<Rightarrow> bool" where
  "line_entry line entry =
     (\<exists>lead pairs v.
        fields_wf lead pairs \<and> line = fields_text lead pairs \<and> 3 \<le> length pairs \<and>
        int_literal (fst (pairs ! (length pairs - 3))) v \<and> entry = (fst (last pairs), v))"

text \<open>The listing line of the specification's example and the path it names.\<close>

definition icon_path_example :: string where
  "icon_path_example = ''.rsrc'' @ [CHR 0x5C] @ ''1033'' @ [CHR 0x5C] @ ''ICON'' @ [CHR 0x5C] @ ''1.ico''"

definition listing_line_example :: string where
  "listing_line_example = ''.....  270398  270376  '' @ icon_path_example"

text \<open>A successful listing of two lines, the second the example line.\<close>

definition listing_example :: "path \<Rightarrow> completed_process" where
  "listing_example exe =
     \<lparr>returncode = 0, stdout = ''Path = app.exe'' @ [CHR 0x0A] @ listing_line_example\<rparr>"

text \<open>A listing with entries of sizes 10, 50, 50 and 5, and one with a two-field line.\<close>

definition listing_sizes_example :: "path \<Rightarrow> completed_process" where
  "listing_sizes_example exe =
     \<lparr>returncode = 0,
      stdout = ''. 10 9 r/ICON/1'' @ [CHR 0x0A] @ ''. 50 9 r/ICON/2'' @ [CHR 0x0A] @
               ''. 50 9 r/ICON/3'' @ [CHR 0x0A] @ ''. 5 9 r/ICON/4''\<rparr>"

definition listing_short_example :: "path \<Rightarrow> completed_process" where
  "listing_short_example exe =
     \<lparr>returncode = 0, stdout = ''Path = app.exe'' @ [CHR 0x0A] @ ''9 r/ICON/1''\<rparr>"

text \<open>A listing whose only line has a size field of 4301 digits.\<close>

definition long_size_field :: string where
  "long_size_field = replicate 4301 CHR ''1''"

definition long_size_line :: string where
  "long_size_line = long_size_field @ '' 9 r/ICON/1''"

definition listing_long_example :: "path \<Rightarrow> completed_process" where
  "listing_long_example exe = \<lparr>returncode = 0, stdout = long_size_line\<rparr>"

text \<open>
  The entries that the extractor can deliver: the extract command succeeds and the
  staged file has a suffix or a format that the sniffer recognises.
\<close>

definition extractable :: "env \<Rightarrow> path \<Rightarrow> string \<Rightarrow> bool" where
  "extractable ev exe inner =
     (case sevenzip_extract ev exe inner of
        None \<Rightarrow> False
      | Some data \<Rightarrow> py_suffix (path_name inner) \<noteq> [] \<or> imghdr_what ev data \<noteq> None)"

text \<open>
  The output names of the specification: \<open>\<langle>stem\<rangle>\<langle>suffix\<rangle>\<close> first, then
  \<open>\<langle>stem\<rangle> (N)\<langle>suffix\<rangle>\<close> for N = 2, 3, ...
\<close>

definition numbered_name :: "string \<Rightarrow> string \<Rightarrow> nat \<Rightarrow> string" where
  "numbered_name base sfx k =
     (if k \<le> 1 then base @ sfx else base @ '' ('' @ show_nat k @ '')'' @ sfx)"

text \<open>The attempts that a log records.\<close>

fun is_attempt :: "msg \<Rightarrow> bool" where
  "is_attempt (Extracting_icon i p s) = True"
| "is_attempt _ = False"

text \<open>
  An example environment. \<open>app.exe\<close> lists two icons, of sizes 50 and 100, the smaller
  one without a file extension; \<open>odd.exe\<close> lists one icon without extension whose bytes
  the sniffer does not recognise; the list command fails on every other file.
\<close>

definition example_list :: "path \<Rightarrow> completed_process" where
  "example_list exe =
     (if name_of exe = ''app.exe''
      then \<lparr>returncode = 0, stdout = ''. 50 9 r/ICON/2'' @ [CHR 0x0A] @ ''. 100 9 r/ICON/1.ico''\<rparr>
      else if name_of exe = ''odd.exe''
      then \<lparr>returncode = 0, stdout = ''. 7 5 r/ICON/3''\<rparr>
      else \<lparr>returncode = 2, stdout = []\<rparr>)"

definition example_extract :: "path \<Rightarrow> string \<Rightarrow> content option" where
  "example_extract exe inner =
     (if inner = ''r/ICON/1.ico'' then Some ''ico-bytes''
      else if inner = ''r/ICON/2'' then Some ''png-bytes''
      else if inner = ''r/ICON/3'' then Some ''unknown-bytes''
      else None)"

definition example_what :: "content \<Rightarrow> img_format option" where
  "example_what data = (if data = ''png-bytes'' then Some Png else None)"

definition example_env :: env where
  "example_env =
     \<lparr>sevenzip_list = example_list, sevenzip_extract = example_extract,
      imghdr_what = example_what, shortcut_target = (\<lambda>p. [''elsewhere'', ''target.exe'']),
      which_7z = Some [''7z'']\<rparr>"

definition empty_world :: world where
  "empty_world = \<lparr>log = [], staging_exists = False, staging = [], outdir = []\<rparr>"

text \<open>
  Example trees: a directory whose only executable is \<open>app.exe\<close>; a directory whose only
  executable is \<open>odd.exe\<close>; and a directory with \<open>app.exe\<close> at the top and \<open>deep.exe\<close> in
  a subdirectory. An output directory that already holds \<open>app.ico\<close> and \<open>app (2).ico\<close>.
\<close>

definition one_exe_root :: node where
  "one_exe_root = Dir [(''d'', Dir [(''app.exe'', File), (''readme.txt'', File)])]"

definition odd_exe_root :: node where
  "odd_exe_root = Dir [(''d'', Dir [(''odd.exe'', File)])]"

definition nested_root :: node where
  "nested_root =
     Dir [(''d'', Dir [(''app.exe'', File), (''sub'', Dir [(''deep.exe'', File)])])]"

definition crowded_world :: world where
  "crowded_world =
     empty_world\<lparr>outdir := [(''app.ico'', ''old one''), (''app (2).ico'', ''old two'')]\<rparr>"

text \<open>
  The states the example runs end in: after a full run on \<open>one_exe_root\<close> from the empty
  state, after a second full run from there, and after a largest-only run from the empty
  state.
\<close>

definition after_first_run :: world where
  "after_first_run =
     \<lparr>log = [Input_path 1 [''d''], Found_executable 1 [''d'', ''app.exe''],
             Processing_file 1 [''d'', ''app.exe''],
             Extracting_icon 1 ''r/ICON/1.ico'' 100, Saving_icon ''app.ico'',
             Extracting_icon 2 ''r/ICON/2'' 50, Guessing_extension, Saving_icon ''app.png'',
             Summary 2 1],
      staging_exists = False, staging = [],
      outdir = [(''app.ico'', ''ico-bytes''), (''app.png'', ''png-bytes'')]\<rparr>"

definition after_second_run :: world where
  "after_second_run =
     \<lparr>log = log after_first_run @
            [Input_path 1 [''d''], Found_executable 1 [''d'', ''app.exe''],
             Processing_file 1 [''d'', ''app.exe''],
             Extracting_icon 1 ''r/ICON/1.ico'' 100, Saving_icon ''app (2).ico'',
             Extracting_icon 2 ''r/ICON/2'' 50, Guessing_extension, Saving_icon ''app (2).png'',
             Summary 2 1],
      staging_exists = False, staging = [],
      outdir = [(''app.ico'', ''ico-bytes''), (''app.png'', ''png-bytes''),
                (''app (2).ico'', ''ico-bytes''), (''app (2).png'', ''png-bytes'')]\<rparr>"

definition after_largest_run :: world where
  "after_largest_run =
     \<lparr>log = [Input_path 1 [''d''], Found_executable 1 [''d'', ''app.exe''],
             Processing_file 1 [''d'', ''app.exe''],
             Extracting_icon 1 ''r/ICON/1.ico'' 100, Saving_icon ''app.ico'', Summary 1 1],
      staging_exists = False, staging = [],
      outdir = [(''app.ico'', ''ico-bytes'')]\<rparr>"


definition args_plain :: args where
  "args_plain = \<lparr>seven_zip = None, recursive = False, largest = False, paths = [[''d'']]\<rparr>"

definition args_recursive :: args where
  "args_recursive = \<lparr>seven_zip = None, recursive = True, largest = False, paths = [[''d'']]\<rparr>"

section \<open>Properties of the Resource Lister\<close>

subsection \<open>Indexing and parsing one line\<close>

lemma py_getitem_last: "xs \<noteq> [] \<Longrightarrow> py_getitem xs (- 1) = Inr (last xs)"
  by (cases xs rule: rev_cases) (simp_all add: py_getitem_def nat_add_distrib)

lemma py_getitem_last_empty: "py_getitem [] (- 1) = Inl IndexError"
  by (simp add: py_getitem_def)

lemma py_getitem_third:
  "py_getitem xs (- 3) = (if 3 \<le> length xs then Inr (xs ! (length xs - 3)) else Inl IndexError)"
  by (auto simp add: py_getitem_def nat_diff_distrib')

subsection \<open>Sorting\<close>

lemma sort_largest_first_sorted: "sorted_wrt (\<lambda>a b. snd b \<le> snd a) (sort_largest_first es)"
proof -
  have "sorted (map snd (sort_key snd (rev es)))" by simp
  then have "sorted_wrt (\<lambda>a b. snd a \<le> snd b) (sort_key snd (rev es))"
    by (simp add: sorted_wrt_map)
  then show ?thesis by (simp add: sort_largest_first_def sorted_wrt_rev)
qed

lemma sort_largest_first_stable:
  "filter (\<lambda>e. snd e = k) (sort_largest_first es) = filter (\<lambda>e. snd e = k) es"
proof -
  have "filter (\<lambda>e. snd e = k) (sort_largest_first es) =
        rev (filter (\<lambda>e. snd e = k) (sort_key snd (rev es)))"
    by (simp add: sort_largest_first_def rev_filter)
  also have "\<dots> = rev (filter (\<lambda>e. snd e = k) (rev es))" by (simp only: sort_key_stable)
  also have "\<dots> = filter (\<lambda>e. snd e = k) es" by (simp add: rev_filter)
  finally show ?thesis .
qed

lemma sort_largest_first_mset: "mset (sort_largest_first es) = mset es"
  by (simp add: sort_largest_first_def)

lemma find_icons_in_exe_cases:
  assumes "find_icons_in_exe run_list exe = Inr (msgs, entries)"
  shows "(returncode (run_list exe) \<noteq> 0 \<and> msgs = [Failed_to_list exe] \<and> entries = []) \<or>
         (returncode (run_list exe) = 0 \<and> msgs = [] \<and>
          (\<exists>parsed. parse_icon_lines [] (py_split_lines (stdout (run_list exe))) = Inr parsed \<and>
                    entries = sort_largest_first parsed))"
  using assms by (auto simp add: find_icons_in_exe_def Let_def split: if_splits sum.splits)

subsection \<open>The examples, evaluated\<close>

lemmas lister_eval = find_icons_in_exe_def py_split_lines_def parse_icon_line_def py_split_def
      is_space_def is_sep_def py_getitem_def py_int_def is_digit_def digit_val_def
      sort_largest_first_def max_str_digits_def

lemma find_icons_listing_sizes:
  "find_icons_in_exe listing_sizes_example [''app.exe''] =
     Inr ([], [(''r/ICON/2'', 50), (''r/ICON/3'', 50), (''r/ICON/1'', 10), (''r/ICON/4'', 5)])"
  by (simp add: listing_sizes_example_def lister_eval)

text \<open>
  Claim C4. The list the Resource Lister returns is sorted by size, largest first, and
  the sort is stable: it permutes the parsed entries and leaves the entries of each size
  in their order of discovery. Entries of sizes 10, 50, 50, 5 come out as 50, 50, 10, 5
  with the two entries of size 50 in their original order.
\<close>

theorem lister_sorted_stable:
  "(find_icons_in_exe run_list exe = Inr (msgs, entries) \<longrightarrow>
      sorted_wrt (\<lambda>a b. snd b \<le> snd a) entries) \<and>
   (find_icons_in_exe run_list exe = Inr (msgs, entries) \<and> returncode (run_list exe) = 0 \<longrightarrow>
      (\<exists>parsed. parse_icon_lines [] (py_split_lines (stdout (run_list exe))) = Inr parsed \<and>
         mset entries = mset parsed \<and>
         (\<forall>k. filter (\<lambda>e. snd e = k) entries = filter (\<lambda>e. snd e = k) parsed))) \<and>
   sort_largest_first [(a, 10), (b, 50), (c, 50), (d, 5)] = [(b, 50), (c, 50), (a, 10), (d, 5)]"
proof (intro conjI impI)
  assume "find_icons_in_exe run_list exe = Inr (msgs, entries)"
  from find_icons_in_exe_cases [OF this]
  show "sorted_wrt (\<lambda>a b. snd b \<le> snd a) entries"
    using sort_largest_first_sorted by auto
next
  assume "find_icons_in_exe run_list exe = Inr (msgs, entries) \<and> returncode (run_list exe) = 0"
  with find_icons_in_exe_cases [of run_list exe msgs entries]
  obtain parsed where "parse_icon_lines [] (py_split_lines (stdout (run_list exe))) = Inr parsed"
    and "entries = sort_largest_first parsed" by auto
  then show "\<exists>parsed. parse_icon_lines [] (py_split_lines (stdout (run_list exe))) = Inr parsed \<and>
         mset entries = mset parsed \<and>
         (\<forall>k. filter (\<lambda>e. snd e = k) entries = filter (\<lambda>e. snd e = k) parsed)"
    using sort_largest_first_mset sort_largest_first_stable by blast
next
  show "sort_largest_first [(a, 10), (b, 50), (c, 50), (d, 5)] = [(b, 50), (c, 50), (a, 10), (d, 5)]"
    by (simp add: sort_largest_first_def)
qed

theorem lister_sorted_stable_witness:
  "find_icons_in_exe listing_sizes_example [''app.exe''] =
     Inr ([], [(''r/ICON/2'', 50), (''r/ICON/3'', 50), (''r/ICON/1'', 10), (''r/ICON/4'', 5)]) \<and>
   returncode (listing_sizes_example [''app.exe'']) = 0 \<and>
   sorted_wrt (\<lambda>a b. snd b \<le> snd a)
     [(''r/ICON/2'', 50 :: int), (''r/ICON/3'', 50), (''r/ICON/1'', 10), (''r/ICON/4'', 5)] \<and>
   (\<exists>parsed. parse_icon_lines [] (py_split_lines (stdout (listing_sizes_example [''app.exe''])))
        = Inr parsed \<and>
      mset [(''r/ICON/2'', 50), (''r/ICON/3'', 50), (''r/ICON/1'', 10), (''r/ICON/4'', 5)]
        = mset parsed \<and>
      (\<forall>k. filter (\<lambda>e. snd e = k)
              [(''r/ICON/2'', 50), (''r/ICON/3'', 50), (''r/ICON/1'', 10), (''r/ICON/4'', 5)]
            = filter (\<lambda>e. snd e = k) parsed))"
  using lister_sorted_stable [of listing_sizes_example "[''app.exe'']" "[]"
      "[(''r/ICON/2'', 50), (''r/ICON/3'', 50), (''r/ICON/1'', 10), (''r/ICON/4'', 5)]"]
    find_icons_listing_sizes
  by (simp add: listing_sizes_example_def)

section \<open>Properties of names and of the naming loop\<close>

subsection \<open>Suffix and stem\<close>

lemma rfind_dot_append:
  "CHR ''.'' \<notin> set ext \<Longrightarrow> rfind_dot (pre @ CHR ''.'' # ext) = int (length pre)"
proof -
  assume "CHR ''.'' \<notin> set ext"
  then have "takeWhile (\<lambda>c. c \<noteq> CHR ''.'') (rev ext @ CHR ''.'' # rev pre) = rev ext"
    by (subst takeWhile_append2) auto
  then show ?thesis by (simp add: rfind_dot_def)
qed

lemma py_suffix_append:
  "pre \<noteq> [] \<Longrightarrow> ext \<noteq> [] \<Longrightarrow> CHR ''.'' \<notin> set ext \<Longrightarrow>
     py_suffix (pre @ CHR ''.'' # ext) = CHR ''.'' # ext"
  by (simp add: py_suffix_def rfind_dot_append)

lemma py_stem_append:
  "pre \<noteq> [] \<Longrightarrow> ext \<noteq> [] \<Longrightarrow> CHR ''.'' \<notin> set ext \<Longrightarrow>
     py_stem (pre @ CHR ''.'' # ext) = pre"
  by (simp add: py_stem_def rfind_dot_append)

lemma py_suffix_shape:
  assumes "py_suffix name \<noteq> []"
  shows "\<exists>pre ext. name = pre @ CHR ''.'' # ext \<and> pre \<noteq> [] \<and> ext \<noteq> [] \<and>
           CHR ''.'' \<notin> set ext \<and> py_suffix name = CHR ''.'' # ext"
proof -
  define t where "t = takeWhile (\<lambda>c. c \<noteq> CHR ''.'') (rev name)"
  define d where "d = dropWhile (\<lambda>c. c \<noteq> CHR ''.'') (rev name)"
  from assms have dot: "CHR ''.'' \<in> set name"
    by (auto simp add: py_suffix_def rfind_dot_def Let_def split: if_splits)
  from assms have range: "0 < rfind_dot name \<and> rfind_dot name < int (length name) - 1"
    by (auto simp add: py_suffix_def Let_def split: if_splits)
  have split: "rev name = t @ d" by (simp add: t_def d_def)
  from dot have "d \<noteq> []" by (auto simp add: d_def dropWhile_eq_Nil_conv)
  then obtain r where d: "d = CHR ''.'' # r"
    using hd_dropWhile [of "\<lambda>c. c \<noteq> CHR ''.''" "rev name"]
    by (cases d) (auto simp add: d_def)
  have nodot: "CHR ''.'' \<notin> set (rev t)"
    using set_takeWhileD [of "CHR ''.''" "\<lambda>c. c \<noteq> CHR ''.''" "rev name"] by (auto simp add: t_def)
  from split d have name: "name = rev r @ CHR ''.'' # rev t"
    by (metis rev_append rev.simps(2) rev_rev_ident append_Cons append_Nil append_assoc)
  from nodot name have rf: "rfind_dot name = int (length (rev r))"
    using rfind_dot_append by blast
  from range rf name have "rev r \<noteq> []" "rev t \<noteq> []" by auto
  with name nodot py_suffix_append [of "rev r" "rev t"] show ?thesis by blast
qed

subsection \<open>Decimal text\<close>

lemma digit_char_inj: "a < 10 \<Longrightarrow> b < 10 \<Longrightarrow> digit_char a = digit_char b \<Longrightarrow> a = b"
proof -
  assume "a < 10" "b < 10" "digit_char a = digit_char b"
  moreover have "distinct ''0123456789''" by simp
  ultimately show "a = b" by (simp add: digit_char_def nth_eq_iff_index_eq)
qed

lemma show_nat_nonempty: "show_nat n \<noteq> []"
  by (subst show_nat.simps) simp

lemma show_nat_small: "n < 10 \<Longrightarrow> show_nat n = [digit_char n]"
  by (subst show_nat.simps) simp

lemma show_nat_large:
  "\<not> n < 10 \<Longrightarrow> show_nat n = show_nat (n div 10) @ [digit_char (n mod 10)]"
  by (subst show_nat.simps) simp

lemma show_nat_inj: "show_nat n = show_nat m \<Longrightarrow> n = m"
proof (induction n arbitrary: m rule: show_nat.induct)
  case (1 n)
  show ?case
  proof (cases "n < 10")
    case True
    show ?thesis
    proof (cases "m < 10")
      case m: True
      with True "1.prems" show ?thesis by (simp add: show_nat_small digit_char_inj)
    next
      case False
      with True "1.prems" show_nat_nonempty [of "m div 10"] show ?thesis
        by (simp add: show_nat_small show_nat_large)
    qed
  next
    case False
    show ?thesis
    proof (cases "m < 10")
      case True
      with False "1.prems" show_nat_nonempty [of "n div 10"] show ?thesis
        by (simp add: show_nat_small show_nat_large)
    next
      case m: False
      with False "1.prems" have "show_nat (n div 10) = show_nat (m div 10)"
        and "digit_char (n mod 10) = digit_char (m mod 10)"
        by (simp_all add: show_nat_large)
      with False "1.IH" have "n div 10 = m div 10" and "n mod 10 = m mod 10"
        by (auto intro: digit_char_inj)
      then show ?thesis by (metis div_mult_mod_eq)
    qed
  qed
qed

subsection \<open>The numbered names\<close>

lemma numbered_name_inj:
  "2 \<le> j \<Longrightarrow> 2 \<le> k \<Longrightarrow> numbered_name base sfx j = numbered_name base sfx k \<Longrightarrow> j = k"
  by (auto simp add: numbered_name_def dest: show_nat_inj)

lemma numbered_name_suffix:
  assumes "ext \<noteq> []" "CHR ''.'' \<notin> set ext"
  shows "py_suffix (base @ '' ('' @ show_nat k @ '')'' @ CHR ''.'' # ext) = CHR ''.'' # ext"
proof -
  have "py_suffix ((base @ '' ('' @ show_nat k @ '')'') @ CHR ''.'' # ext) = CHR ''.'' # ext"
    using assms by (intro py_suffix_append) simp_all
  then show ?thesis by simp
qed

lemma free_number_exists:
  assumes "finite {n. ex n}"
  shows "\<exists>k\<ge>2. \<not> ex (numbered_name base sfx k)"
proof (rule ccontr)
  assume "\<not> (\<exists>k\<ge>2. \<not> ex (numbered_name base sfx k))"
  then have sub: "numbered_name base sfx ` {2..} \<subseteq> {n. ex n}" by auto
  have "inj_on (numbered_name base sfx) {2..}"
    by (rule inj_onI) (auto dest: numbered_name_inj)
  moreover have "infinite {2::nat..}" by (simp add: infinite_Ici)
  ultimately have "infinite (numbered_name base sfx ` {2..})" by (simp add: finite_image_iff)
  with sub assms show False using finite_subset by blast
qed

subsection \<open>The loop that looks for a free name\<close>

lemma probe_free: "\<not> ex t \<Longrightarrow> probe_target ex st i t = Some t"
  by (subst probe_target.simps) simp

lemma probe_step:
  "ex t \<Longrightarrow> probe_target ex st i t =
     probe_target ex st (i + 1) (st @ '' ('' @ show_nat (i + 1) @ '')'' @ py_suffix t)"
  by (subst probe_target.simps) simp

lemma probe_result_free:
  assumes "probe_target ex st i t = Some r"
  shows "\<not> ex r"
proof (rule probe_target.raw_induct [where P = "\<lambda>ex st i t r. \<not> ex r", OF _ assms])
  fix probe ex st i t r
  assume IH: "\<And>ex st i t r. probe ex st i t = Some r \<Longrightarrow> \<not> ex r"
    and eq: "(if ex t
              then probe ex st (i + 1) (st @ '' ('' @ show_nat (i + 1) @ '')'' @ py_suffix t)
              else Some t) = Some r"
  show "\<not> ex r"
  proof (cases "ex t")
    case True
    with eq have "probe ex st (i + 1) (st @ '' ('' @ show_nat (i + 1) @ '')'' @ py_suffix t) = Some r"
      by simp
    then show ?thesis by (rule IH)
  next
    case False
    with eq show ?thesis by simp
  qed
qed

lemma probe_run:
  assumes ext: "ext \<noteq> []" "CHR ''.'' \<notin> set ext"
    and "ex t" "py_suffix t = CHR ''.'' # ext" "1 \<le> i" "i < K"
    and "\<forall>j. i < j \<and> j < K \<longrightarrow> ex (numbered_name st (CHR ''.'' # ext) j)"
    and "\<not> ex (numbered_name st (CHR ''.'' # ext) K)"
  shows "probe_target ex st i t = Some (numbered_name st (CHR ''.'' # ext) K)"
  using assms(3-)
proof (induction "K - i" arbitrary: i t)
  case 0
  then show ?case by simp
next
  case (Suc d)
  let ?next = "st @ '' ('' @ show_nat (i + 1) @ '')'' @ CHR ''.'' # ext"
  from Suc.prems have two: "2 \<le> i + 1" by simp
  then have nn: "numbered_name st (CHR ''.'' # ext) (i + 1) = ?next"
    by (simp add: numbered_name_def)
  from Suc.prems have step: "probe_target ex st i t = probe_target ex st (i + 1) ?next"
    by (simp add: probe_step)
  show ?case
  proof (cases "i + 1 = K")
    case True
    with Suc.prems nn have "\<not> ex ?next" by simp
    with step True nn show ?thesis by (simp add: probe_free)
  next
    case False
    with Suc.prems have lt: "i + 1 < K" by simp
    with Suc.prems nn have "ex ?next" by (metis less_add_one)
    moreover have "py_suffix ?next = CHR ''.'' # ext" using ext by (rule numbered_name_suffix)
    moreover from Suc.hyps lt have "d = K - (i + 1)" by simp
    moreover from Suc.prems have "\<forall>j. i + 1 < j \<and> j < K \<longrightarrow> ex (numbered_name st (CHR ''.'' # ext) j)"
      by simp
    ultimately have "probe_target ex st (i + 1) ?next = Some (numbered_name st (CHR ''.'' # ext) K)"
      using Suc.hyps(1) [of "i + 1" ?next] lt Suc.prems(6) by simp
    with step show ?thesis by simp
  qed
qed

lemma probe_first_free:
  assumes fin: "finite {n. ex n}" and base: "base \<noteq> []"
    and ext: "ext \<noteq> []" "CHR ''.'' \<notin> set ext"
  shows "\<exists>k\<ge>1. probe_target ex (py_stem (base @ CHR ''.'' # ext)) 1 (base @ CHR ''.'' # ext)
                  = Some (numbered_name base (CHR ''.'' # ext) k) \<and>
               \<not> ex (numbered_name base (CHR ''.'' # ext) k) \<and>
               (\<forall>j. 1 \<le> j \<and> j < k \<longrightarrow> ex (numbered_name base (CHR ''.'' # ext) j))"
proof -
  let ?sfx = "CHR ''.'' # ext"
  let ?nn = "numbered_name base ?sfx"
  have stem: "py_stem (base @ ?sfx) = base" using base ext by (rule py_stem_append)
  have one: "?nn 1 = base @ ?sfx" "?nn (Suc 0) = base @ ?sfx" by (simp_all add: numbered_name_def)
  show ?thesis
  proof (cases "ex (base @ ?sfx)")
    case False
    then have "probe_target ex base 1 (base @ ?sfx) = Some (?nn 1)"
      by (simp add: probe_free one)
    with False stem one show ?thesis by (intro exI [of _ 1]) simp
  next
    case True
    from free_number_exists [OF fin] obtain k0 where "2 \<le> k0" "\<not> ex (?nn k0)" by blast
    then have ex_free: "\<exists>k. 2 \<le> k \<and> \<not> ex (?nn k)" by blast
    define K where "K = (LEAST k. 2 \<le> k \<and> \<not> ex (?nn k))"
    from LeastI_ex [OF ex_free] have K: "2 \<le> K" "\<not> ex (?nn K)" by (simp_all add: K_def)
    have below: "\<forall>j. 1 < j \<and> j < K \<longrightarrow> ex (?nn j)"
    proof (intro allI impI)
      fix j assume j: "1 < j \<and> j < K"
      show "ex (?nn j)"
      proof (rule ccontr)
        assume "\<not> ex (?nn j)"
        with j have "2 \<le> j \<and> \<not> ex (?nn j)" by simp
        then have "K \<le> j" unfolding K_def by (rule Least_le)
        with j show False by simp
      qed
    qed
    have sfx: "py_suffix (base @ ?sfx) = ?sfx" using base ext by (rule py_suffix_append)
    from K have "1 < K" by simp
    with probe_run [OF ext True sfx _ _ below K(2)]
    have run: "probe_target ex base 1 (base @ ?sfx) = Some (?nn K)" by simp
    have "\<forall>j. 1 \<le> j \<and> j < K \<longrightarrow> ex (?nn j)"
    proof (intro allI impI)
      fix j assume j: "1 \<le> j \<and> j < K"
      show "ex (?nn j)"
      proof (cases "j = 1")
        case True
        with \<open>ex (base @ ?sfx)\<close> one show ?thesis by simp
      next
        case False
        with j below show ?thesis by simp
      qed
    qed
    with run K stem show ?thesis by (intro exI [of _ K]) simp
  qed
qed
section \<open>Properties of the Resource Extractor and the Extraction Orchestrator\<close>

subsection \<open>One extraction\<close>

lemma py_lower_Nil: "(py_lower s = []) = (s = [])"
  by (simp add: py_lower_def)

lemma py_stem_nonempty: "name \<noteq> [] \<Longrightarrow> py_stem name \<noteq> []"
  by (auto simp add: py_stem_def Let_def)

lemma format_name_plain: "format_name f \<noteq> [] \<and> CHR ''.'' \<notin> set (format_name f)"
  by (cases f) simp_all

lemma sniffed_name_suffix:
  "name \<noteq> [] \<Longrightarrow> py_suffix (name @ CHR ''.'' # format_name f) \<noteq> []"
  using py_suffix_append [of name "format_name f"] format_name_plain [of f] by simp

lemma extract_icon_from_exe_frame:
  assumes "extract_icon_from_exe ev exe inner w = Inr (r, w1)"
  shows "outdir w1 = outdir w \<and> staging_exists w1 = staging_exists w \<and>
         filter is_attempt (log w1) = filter is_attempt (log w)"
  using assms
  by (auto simp add: extract_icon_from_exe_def Let_def say_def say_all_def
      split: option.splits if_splits)

lemma extract_icon_from_exe_None:
  assumes "extract_icon_from_exe ev exe inner w = Inr (None, w1)"
  shows "\<not> extractable ev exe inner"
  using assms
  by (auto simp add: extract_icon_from_exe_def Let_def extractable_def py_lower_Nil
      split: option.splits if_splits)

lemma extract_icon_from_exe_Some:
  assumes "extract_icon_from_exe ev exe inner w = Inr (Some icon_name, w1)"
  shows "extractable ev exe inner \<and> py_suffix icon_name \<noteq> [] \<and>
         (\<exists>data. sevenzip_extract ev exe inner = Some data \<and>
                 map_of (staging w1) icon_name = Some data)"
  using assms
  by (auto simp add: extract_icon_from_exe_def Let_def extractable_def py_lower_Nil
      say_def say_all_def sniffed_name_suffix update_conv' split: option.splits if_splits)

subsection \<open>One turn of the loop\<close>

lemma target_exists_frame:
  "outdir w1 = outdir w \<Longrightarrow> staging_exists w1 = staging_exists w \<Longrightarrow>
     target_exists w1 = target_exists w"
  by (rule ext) (simp add: target_exists_def)

lemma target_exists_finite: "finite {n. target_exists w n}"
proof -
  have "{n. target_exists w n} \<subseteq> dom (map_of (outdir w)) \<union> {''temp-output''}"
    by (auto simp add: target_exists_def)
  moreover have "finite (dom (map_of (outdir w)) \<union> {''temp-output''})"
    by (simp add: finite_dom_map_of)
  ultimately show ?thesis by (rule finite_subset)
qed

lemma extract_icons_loop_turn:
  assumes "extract_icons_loop ev exe only_largest idx num ((inner, sz) # rest) w = Inr (n, w')"
  shows "(\<exists>w1. extract_icon_from_exe ev exe inner (say (Extracting_icon idx inner sz) w)
                 = Inr (None, w1) \<and>
               extract_icons_loop ev exe only_largest (idx + 1) num rest (say Failed_to_extract w1)
                 = Inr (n, w')) \<or>
         (\<exists>icon_name w1 free data w2.
            extract_icon_from_exe ev exe inner (say (Extracting_icon idx inner sz) w)
              = Inr (Some icon_name, w1) \<and>
            probe_target (target_exists w1)
              (py_stem (py_stem (name_of exe) @ py_suffix icon_name)) 1
              (py_stem (name_of exe) @ py_suffix icon_name) = Some free \<and>
            map_of (staging w1) icon_name = Some data \<and>
            w2 = (say (Saving_icon free) w1)\<lparr>staging := AList.delete icon_name (staging w1),
                                              outdir := AList.update free data (outdir w1)\<rparr> \<and>
            (if only_largest then n = num + 1 \<and> w' = w2
             else extract_icons_loop ev exe only_largest (idx + 1) (num + 1) rest w2 = Inr (n, w')))"
  using assms
  by (auto simp add: Let_def move_to_output_def say_def say_all_def
      split: sum.splits option.splits if_splits prod.splits)


lemma say_fields:
  "outdir (say m w) = outdir w" "staging (say m w) = staging w"
  "staging_exists (say m w) = staging_exists w" "log (say m w) = log w @ [m]"
  by (simp_all add: say_def say_all_def)

lemma say_all_fields:
  "outdir (say_all ms w) = outdir w" "staging (say_all ms w) = staging w"
  "staging_exists (say_all ms w) = staging_exists w" "log (say_all ms w) = log w @ ms"
  by (simp_all add: say_all_def)

lemma fresh_name_extends:
  assumes "\<not> target_exists w free"
  shows "map_of (outdir w) \<subseteq>\<^sub>m map_of (AList.update free data (outdir w)) \<and>
         free \<notin> dom (map_of (outdir w)) \<and>
         card (dom (map_of (AList.update free data (outdir w)))) =
           card (dom (map_of (outdir w))) + 1"
proof -
  from assms have fresh: "free \<notin> dom (map_of (outdir w))"
    by (auto simp add: target_exists_def)
  then have "map_of (outdir w) \<subseteq>\<^sub>m (map_of (outdir w))(free \<mapsto> data)"
    by (auto simp add: map_le_def)
  moreover have "finite (dom (map_of (outdir w)))" by (rule finite_dom_map_of)
  with fresh have "card (insert free (dom (map_of (outdir w)))) = card (dom (map_of (outdir w))) + 1"
    by simp
  ultimately show ?thesis using fresh by (simp add: update_conv')
qed

subsection \<open>The whole loop\<close>

lemma extract_icons_loop_outdir:
  assumes "extract_icons_loop ev exe only_largest idx num entries w = Inr (n, w')"
  shows "map_of (outdir w) \<subseteq>\<^sub>m map_of (outdir w') \<and> staging_exists w' = staging_exists w \<and>
         num \<le> n \<and>
         card (dom (map_of (outdir w'))) = card (dom (map_of (outdir w))) + (n - num)"
  using assms
proof (induction entries arbitrary: idx num w)
  case Nil
  then show ?case by simp
next
  case (Cons entry entries)
  obtain inner sz where entry: "entry = (inner, sz)" by (cases entry)
  let ?w0 = "say (Extracting_icon idx inner sz) w"
  from Cons.prems entry extract_icons_loop_turn [of ev exe only_largest idx num inner sz entries w n w']
  consider
    (failed) w1 where
      "extract_icon_from_exe ev exe inner ?w0 = Inr (None, w1)"
      "extract_icons_loop ev exe only_largest (idx + 1) num entries (say Failed_to_extract w1)
         = Inr (n, w')"
  | (moved) icon_name w1 free data w2 where
      "extract_icon_from_exe ev exe inner ?w0 = Inr (Some icon_name, w1)"
      "probe_target (target_exists w1)
         (py_stem (py_stem (name_of exe) @ py_suffix icon_name)) 1
         (py_stem (name_of exe) @ py_suffix icon_name) = Some free"
      "w2 = (say (Saving_icon free) w1)\<lparr>staging := AList.delete icon_name (staging w1),
                                        outdir := AList.update free data (outdir w1)\<rparr>"
      "if only_largest then n = num + 1 \<and> w' = w2
       else extract_icons_loop ev exe only_largest (idx + 1) (num + 1) entries w2 = Inr (n, w')"
    by blast
  then show ?case
  proof cases
    case failed
    from extract_icon_from_exe_frame [OF failed(1)]
    have same: "outdir (say Failed_to_extract w1) = outdir w"
      "staging_exists (say Failed_to_extract w1) = staging_exists w"
      by (simp_all add: say_fields)
    from Cons.IH [OF failed(2)] same show ?thesis by simp
  next
    case moved
    from extract_icon_from_exe_frame [OF moved(1)]
    have frame: "outdir w1 = outdir w" "staging_exists w1 = staging_exists w"
      by (simp_all add: say_fields)
    from probe_result_free [OF moved(2)] have "\<not> target_exists w1 free" .
    with frame have "\<not> target_exists w free" by (simp add: target_exists_def)
    note fresh = fresh_name_extends [OF this, of data]
    from moved(3) frame have w2: "outdir w2 = AList.update free data (outdir w)"
      "staging_exists w2 = staging_exists w" by (simp_all add: say_fields)
    from fresh have le2: "map_of (outdir w) \<subseteq>\<^sub>m map_of (outdir w2)"
      and card2: "card (dom (map_of (outdir w2))) = card (dom (map_of (outdir w))) + 1"
      unfolding w2(1) by blast+
    show ?thesis
    proof (cases only_largest)
      case True
      with moved(4) have n: "n = num + 1" and w': "w' = w2" by simp_all
      from le2 w2(2) card2 show ?thesis unfolding w' n by simp
    next
      case False
      with moved(4) have "extract_icons_loop ev exe only_largest (idx + 1) (num + 1) entries w2
                            = Inr (n, w')" by simp
      from Cons.IH [OF this]
      have ih: "map_of (outdir w2) \<subseteq>\<^sub>m map_of (outdir w')"
        "staging_exists w' = staging_exists w2" "num + 1 \<le> n"
        "card (dom (map_of (outdir w'))) = card (dom (map_of (outdir w2))) + (n - (num + 1))"
        by blast+
      from le2 ih(1) have "map_of (outdir w) \<subseteq>\<^sub>m map_of (outdir w')" by (rule map_le_trans)
      then show ?thesis using card2 ih(2) ih(3) ih(4) w2(2) by simp
    qed
  qed
qed

lemma process_exes_outdir:
  assumes "process_exes ev only_largest idx num exes w = Inr (n, w')"
  shows "map_of (outdir w) \<subseteq>\<^sub>m map_of (outdir w') \<and> staging_exists w' = staging_exists w \<and>
         num \<le> n \<and>
         card (dom (map_of (outdir w'))) = card (dom (map_of (outdir w))) + (n - num)"
  using assms
proof (induction exes arbitrary: idx num w)
  case Nil
  then show ?case by simp
next
  case (Cons exe exes)
  from Cons.prems obtain msgs icon_files where
    found: "find_icons_in_exe (sevenzip_list ev) exe = Inr (msgs, icon_files)"
    by (auto split: sum.splits)
  let ?w1 = "say_all msgs (say (Processing_file idx exe) w)"
  have w1: "outdir ?w1 = outdir w" "staging_exists ?w1 = staging_exists w"
    by (simp_all add: say_fields say_all_fields)
  show ?case
  proof (cases "length icon_files = 0")
    case True
    with Cons.prems found
    have "process_exes ev only_largest (idx + 1) num exes (say No_icon_files ?w1) = Inr (n, w')"
      by simp
    from Cons.IH [OF this] w1 show ?thesis by (simp add: say_fields)
  next
    case False
    with Cons.prems found obtain k w2 where
      ex: "extract_icons ev exe icon_files only_largest ?w1 = Inr (k, w2)"
      and rest: "process_exes ev only_largest (idx + 1) (num + k) exes w2 = Inr (n, w')"
      by (auto simp add: Let_def split: sum.splits)
    from ex have "extract_icons_loop ev exe only_largest 1 0 icon_files ?w1 = Inr (k, w2)"
      by (simp add: extract_icons_def)
    from extract_icons_loop_outdir [OF this] w1
    have a: "map_of (outdir w) \<subseteq>\<^sub>m map_of (outdir w2)" "staging_exists w2 = staging_exists w"
      "card (dom (map_of (outdir w2))) = card (dom (map_of (outdir w))) + k"
      by simp_all
    from Cons.IH [OF rest]
    have b: "map_of (outdir w2) \<subseteq>\<^sub>m map_of (outdir w')" "staging_exists w' = staging_exists w2"
      "num + k \<le> n"
      "card (dom (map_of (outdir w'))) = card (dom (map_of (outdir w2))) + (n - (num + k))"
      by blast+
    from a(1) b(1) have "map_of (outdir w) \<subseteq>\<^sub>m map_of (outdir w')" by (rule map_le_trans)
    with a b show ?thesis by simp
  qed
qed

lemma run_extraction_outdir:
  assumes "run_extraction root ev inputs only_largest w = Inr w'"
  shows "map_of (AList.delete ''temp-output'' (outdir w)) \<subseteq>\<^sub>m map_of (outdir w') \<and>
         (\<exists>n m. last (log w') = Summary n m \<and>
                card (dom (map_of (outdir w'))) =
                  card (dom (map_of (AList.delete ''temp-output'' (outdir w)))) + n)"
proof -
  obtain msgs exes where f: "found_executables root ev inputs = (msgs, exes)"
    by (cases "found_executables root ev inputs")
  define w0 where "w0 = say_all (map (\<lambda>(i, p). Found_executable i p) (enumerate 1 exes))
                 (say_all msgs
                   (say_all (map (\<lambda>(i, p). Input_path i p) (enumerate 1 inputs)) w))"
  define w1 where "w1 = w0\<lparr>staging_exists := True, staging := [],
                           outdir := AList.delete ''temp-output'' (outdir w0)\<rparr>"
  have w1: "outdir w1 = AList.delete ''temp-output'' (outdir w)"
    by (simp add: w1_def w0_def say_all_fields)
  from assms f obtain n w2 w3 where
    p: "process_exes ev only_largest 1 0 exes w1 = Inr (n, w2)"
    and r: "rmdir_staging w2 = Inr w3"
    and w': "w' = say (Summary n (length exes)) w3"
    by (auto simp add: run_extraction_def Let_def w1_def w0_def split: sum.splits prod.splits)
  from r have w3: "outdir w3 = outdir w2"
    by (auto simp add: rmdir_staging_def split: if_splits)
  from w' w3 have out: "outdir w' = outdir w2" and lg: "last (log w') = Summary n (length exes)"
    by (simp_all add: say_fields)
  from process_exes_outdir [OF p]
  have "map_of (outdir w1) \<subseteq>\<^sub>m map_of (outdir w2)"
    and "card (dom (map_of (outdir w2))) = card (dom (map_of (outdir w1))) + n" by simp_all
  then show ?thesis unfolding out w1 using lg by blast
qed

lemma extract_icons_loop_staging_name:
  assumes "extract_icons_loop ev exe only_largest idx num entries w = Inr (n, w')"
    and "staging_exists w" and "map_of (outdir w) ''temp-output'' = None"
  shows "map_of (outdir w') ''temp-output'' = None"
  using assms
proof (induction entries arbitrary: idx num w)
  case Nil
  then show ?case by simp
next
  case (Cons entry entries)
  obtain inner sz where entry: "entry = (inner, sz)" by (cases entry)
  let ?w0 = "say (Extracting_icon idx inner sz) w"
  from Cons.prems(1) entry
    extract_icons_loop_turn [of ev exe only_largest idx num inner sz entries w n w']
  consider
    (failed) w1 where
      "extract_icon_from_exe ev exe inner ?w0 = Inr (None, w1)"
      "extract_icons_loop ev exe only_largest (idx + 1) num entries (say Failed_to_extract w1)
         = Inr (n, w')"
  | (moved) icon_name w1 free data w2 where
      "extract_icon_from_exe ev exe inner ?w0 = Inr (Some icon_name, w1)"
      "probe_target (target_exists w1)
         (py_stem (py_stem (name_of exe) @ py_suffix icon_name)) 1
         (py_stem (name_of exe) @ py_suffix icon_name) = Some free"
      "w2 = (say (Saving_icon free) w1)\<lparr>staging := AList.delete icon_name (staging w1),
                                        outdir := AList.update free data (outdir w1)\<rparr>"
      "if only_largest then n = num + 1 \<and> w' = w2
       else extract_icons_loop ev exe only_largest (idx + 1) (num + 1) entries w2 = Inr (n, w')"
    by blast
  then show ?case
  proof cases
    case failed
    from extract_icon_from_exe_frame [OF failed(1)] Cons.prems(2) Cons.prems(3)
    have "staging_exists (say Failed_to_extract w1)"
      "map_of (outdir (say Failed_to_extract w1)) ''temp-output'' = None"
      by (simp_all add: say_fields)
    with failed(2) show ?thesis by (rule Cons.IH)
  next
    case moved
    from extract_icon_from_exe_frame [OF moved(1)]
    have frame: "outdir w1 = outdir w" "staging_exists w1 = staging_exists w"
      by (simp_all add: say_fields)
    from probe_result_free [OF moved(2)] frame(2) Cons.prems(2)
    have "free \<noteq> ''temp-output''" by (auto simp add: target_exists_def)
    with moved(3) frame Cons.prems(2) Cons.prems(3)
    have w2: "staging_exists w2" "map_of (outdir w2) ''temp-output'' = None"
      by (simp_all add: say_fields update_conv')
    show ?thesis
    proof (cases only_largest)
      case True
      with moved(4) w2 show ?thesis by simp
    next
      case False
      with moved(4) have "extract_icons_loop ev exe only_largest (idx + 1) (num + 1) entries w2
                            = Inr (n, w')" by simp
      from this w2 show ?thesis by (rule Cons.IH)
    qed
  qed
qed

lemma process_exes_staging_name:
  assumes "process_exes ev only_largest idx num exes w = Inr (n, w')"
    and "staging_exists w" and "map_of (outdir w) ''temp-output'' = None"
  shows "map_of (outdir w') ''temp-output'' = None"
  using assms
proof (induction exes arbitrary: idx num w)
  case Nil
  then show ?case by simp
next
  case (Cons exe exes)
  from Cons.prems(1) obtain msgs icon_files where
    found: "find_icons_in_exe (sevenzip_list ev) exe = Inr (msgs, icon_files)"
    by (auto split: sum.splits)
  let ?w1 = "say_all msgs (say (Processing_file idx exe) w)"
  from Cons.prems(2) Cons.prems(3)
  have w1: "staging_exists ?w1" "map_of (outdir ?w1) ''temp-output'' = None"
    by (simp_all add: say_fields say_all_fields)
  show ?case
  proof (cases "length icon_files = 0")
    case True
    with Cons.prems(1) found
    have "process_exes ev only_largest (idx + 1) num exes (say No_icon_files ?w1) = Inr (n, w')"
      by simp
    moreover from w1 have "staging_exists (say No_icon_files ?w1)"
      "map_of (outdir (say No_icon_files ?w1)) ''temp-output'' = None"
      by (simp_all add: say_fields)
    ultimately show ?thesis by (rule Cons.IH)
  next
    case False
    with Cons.prems(1) found obtain k w2 where
      ex: "extract_icons ev exe icon_files only_largest ?w1 = Inr (k, w2)"
      and rest: "process_exes ev only_largest (idx + 1) (num + k) exes w2 = Inr (n, w')"
      by (auto simp add: Let_def split: sum.splits)
    from ex have loop: "extract_icons_loop ev exe only_largest 1 0 icon_files ?w1 = Inr (k, w2)"
      by (simp add: extract_icons_def)
    from extract_icons_loop_staging_name [OF loop w1]
    have "map_of (outdir w2) ''temp-output'' = None" .
    moreover from extract_icons_loop_outdir [OF loop] w1(1) have "staging_exists w2" by simp
    ultimately show ?thesis using rest by (intro Cons.IH [of "idx + 1" "num + k" w2])
  qed
qed

lemma run_extraction_no_staging_name:
  assumes "run_extraction root ev inputs only_largest w = Inr w'"
  shows "AList.delete ''temp-output'' (outdir w') = outdir w'"
proof -
  obtain msgs exes where f: "found_executables root ev inputs = (msgs, exes)"
    by (cases "found_executables root ev inputs")
  define w0 where "w0 = say_all (map (\<lambda>(i, p). Found_executable i p) (enumerate 1 exes))
                 (say_all msgs
                   (say_all (map (\<lambda>(i, p). Input_path i p) (enumerate 1 inputs)) w))"
  define w1 where "w1 = w0\<lparr>staging_exists := True, staging := [],
                           outdir := AList.delete ''temp-output'' (outdir w0)\<rparr>"
  have w1: "staging_exists w1" "map_of (outdir w1) ''temp-output'' = None"
    by (simp_all add: w1_def delete_conv')
  from assms f obtain n w2 w3 where
    p: "process_exes ev only_largest 1 0 exes w1 = Inr (n, w2)"
    and r: "rmdir_staging w2 = Inr w3"
    and w': "w' = say (Summary n (length exes)) w3"
    by (auto simp add: run_extraction_def Let_def w1_def w0_def split: sum.splits prod.splits)
  from r have w3: "outdir w3 = outdir w2"
    by (auto simp add: rmdir_staging_def split: if_splits)
  from w' w3 have out: "outdir w' = outdir w2" by (simp add: say_fields)
  from process_exes_staging_name [OF p w1] have "map_of (outdir w2) ''temp-output'' = None" .
  then have "''temp-output'' \<notin> fst ` set (outdir w2)" by (simp add: map_of_eq_None_iff)
  then show ?thesis unfolding out by (rule delete_id)
qed

subsection \<open>Largest-only mode and the attempts of a full pass\<close>

lemma only_largest_first_success:
  assumes "extract_icons_loop ev exe True idx num entries w = Inr (n, w')"
  shows "(n = num \<and> (\<forall>e \<in> set entries. \<not> extractable ev exe (fst e)) \<and> outdir w' = outdir w) \<or>
         (\<exists>pre inner sz post data name.
            n = num + 1 \<and> entries = pre @ (inner, sz) # post \<and>
            (\<forall>e \<in> set pre. \<not> extractable ev exe (fst e)) \<and> extractable ev exe inner \<and>
            sevenzip_extract ev exe inner = Some data \<and> map_of (outdir w) name = None \<and>
            outdir w' = AList.update name data (outdir w))"
  using assms
proof (induction entries arbitrary: idx w)
  case Nil
  then show ?case by simp
next
  case (Cons entry entries)
  obtain inner sz where entry: "entry = (inner, sz)" by (cases entry)
  let ?w0 = "say (Extracting_icon idx inner sz) w"
  from Cons.prems entry extract_icons_loop_turn [of ev exe True idx num inner sz entries w n w']
  consider
    (failed) w1 where
      "extract_icon_from_exe ev exe inner ?w0 = Inr (None, w1)"
      "extract_icons_loop ev exe True (idx + 1) num entries (say Failed_to_extract w1) = Inr (n, w')"
  | (moved) icon_name w1 free data w2 where
      "extract_icon_from_exe ev exe inner ?w0 = Inr (Some icon_name, w1)"
      "probe_target (target_exists w1)
         (py_stem (py_stem (name_of exe) @ py_suffix icon_name)) 1
         (py_stem (name_of exe) @ py_suffix icon_name) = Some free"
      "map_of (staging w1) icon_name = Some data"
      "w2 = (say (Saving_icon free) w1)\<lparr>staging := AList.delete icon_name (staging w1),
                                        outdir := AList.update free data (outdir w1)\<rparr>"
      "n = num + 1 \<and> w' = w2"
    by auto
  then show ?case
  proof cases
    case failed
    from extract_icon_from_exe_frame [OF failed(1)]
    have same: "outdir (say Failed_to_extract w1) = outdir w" by (simp add: say_fields)
    from extract_icon_from_exe_None [OF failed(1)] have no: "\<not> extractable ev exe inner" .
    from Cons.IH [OF failed(2)]
    show ?thesis
    proof
      assume "n = num \<and> (\<forall>e \<in> set entries. \<not> extractable ev exe (fst e)) \<and>
              outdir w' = outdir (say Failed_to_extract w1)"
      with no entry same show ?thesis by simp
    next
      assume "\<exists>pre inner sz post data name.
            n = num + 1 \<and> entries = pre @ (inner, sz) # post \<and>
            (\<forall>e \<in> set pre. \<not> extractable ev exe (fst e)) \<and> extractable ev exe inner \<and>
            sevenzip_extract ev exe inner = Some data \<and>
            map_of (outdir (say Failed_to_extract w1)) name = None \<and>
            outdir w' = AList.update name data (outdir (say Failed_to_extract w1))"
      then obtain pre inner' sz' post data name where
        r: "n = num + 1" "entries = pre @ (inner', sz') # post"
          "\<forall>e \<in> set pre. \<not> extractable ev exe (fst e)" "extractable ev exe inner'"
          "sevenzip_extract ev exe inner' = Some data"
          "map_of (outdir (say Failed_to_extract w1)) name = None"
          "outdir w' = AList.update name data (outdir (say Failed_to_extract w1))"
        by blast
      from r(2) entry have "entry # entries = ((inner, sz) # pre) @ (inner', sz') # post" by simp
      moreover from r(3) no have "\<forall>e \<in> set ((inner, sz) # pre). \<not> extractable ev exe (fst e)"
        by simp
      moreover from r(6) have "map_of (outdir w) name = None" unfolding same .
      moreover from r(7) have "outdir w' = AList.update name data (outdir w)" unfolding same .
      ultimately show ?thesis using r(1) r(4) r(5) by blast
    qed
  next
    case moved
    from extract_icon_from_exe_frame [OF moved(1)]
    have frame: "outdir w1 = outdir w" "staging_exists w1 = staging_exists w"
      by (simp_all add: say_fields)
    from extract_icon_from_exe_Some [OF moved(1)] moved(3)
    have yes: "extractable ev exe inner" and data: "sevenzip_extract ev exe inner = Some data"
      by auto
    from probe_result_free [OF moved(2)] frame have "\<not> target_exists w free"
      by (simp add: target_exists_def)
    then have fresh: "map_of (outdir w) free = None" by (simp add: target_exists_def)
    from moved(4) moved(5) have "outdir w' = AList.update free data (outdir w1)"
      by (simp add: say_fields)
    then have out: "outdir w' = AList.update free data (outdir w)" unfolding frame(1) .
    have "entry # entries = [] @ (inner, sz) # entries" using entry by simp
    moreover have "\<forall>e \<in> set []. \<not> extractable ev exe (fst e)" by simp
    ultimately show ?thesis using moved(5) yes data fresh out by blast
  qed
qed

lemma first_success_is_largest:
  assumes "sorted_wrt (\<lambda>a b. snd b \<le> snd a) (pre @ (inner, sz :: int) # post)"
    and "\<forall>e \<in> set pre. \<not> good (fst e)"
  shows "\<forall>e \<in> set (pre @ (inner, sz) # post). good (fst e) \<longrightarrow> snd e \<le> sz"
  using assms by (auto simp add: sorted_wrt_append)

lemma every_entry_attempted:
  assumes "extract_icons_loop ev exe False idx num entries w = Inr (n, w')"
  shows "filter is_attempt (log w') =
           filter is_attempt (log w) @
           map (\<lambda>(i, (p, s)). Extracting_icon i p s) (enumerate idx entries) \<and>
         n = num + length (filter (\<lambda>e. extractable ev exe (fst e)) entries)"
  using assms
proof (induction entries arbitrary: idx num w)
  case Nil
  then show ?case by simp
next
  case (Cons entry entries)
  obtain inner sz where entry: "entry = (inner, sz)" by (cases entry)
  let ?w0 = "say (Extracting_icon idx inner sz) w"
  from Cons.prems entry extract_icons_loop_turn [of ev exe False idx num inner sz entries w n w']
  consider
    (failed) w1 where
      "extract_icon_from_exe ev exe inner ?w0 = Inr (None, w1)"
      "extract_icons_loop ev exe False (idx + 1) num entries (say Failed_to_extract w1) = Inr (n, w')"
  | (moved) icon_name w1 free data w2 where
      "extract_icon_from_exe ev exe inner ?w0 = Inr (Some icon_name, w1)"
      "w2 = (say (Saving_icon free) w1)\<lparr>staging := AList.delete icon_name (staging w1),
                                        outdir := AList.update free data (outdir w1)\<rparr>"
      "extract_icons_loop ev exe False (idx + 1) (num + 1) entries w2 = Inr (n, w')"
    by auto
  then show ?case
  proof cases
    case failed
    from extract_icon_from_exe_frame [OF failed(1)]
    have lg: "filter is_attempt (log (say Failed_to_extract w1)) =
              filter is_attempt (log w) @ [Extracting_icon idx inner sz]"
      by (simp add: say_fields)
    from extract_icon_from_exe_None [OF failed(1)] have no: "\<not> extractable ev exe inner" .
    from Cons.IH [OF failed(2)] lg no entry show ?thesis by simp
  next
    case moved
    from extract_icon_from_exe_frame [OF moved(1)] moved(2)
    have lg: "filter is_attempt (log w2) = filter is_attempt (log w) @ [Extracting_icon idx inner sz]"
      by (simp add: say_fields)
    from extract_icon_from_exe_Some [OF moved(1)] have yes: "extractable ev exe inner" by simp
    from Cons.IH [OF moved(3)] lg yes entry show ?thesis by simp
  qed
qed
subsection \<open>A successful turn, and termination\<close>

lemma extract_icons_loop_success_turn:
  assumes got: "extract_icon_from_exe ev exe inner (say (Extracting_icon idx inner sz) w)
      = Inr (Some icon_name, w1)"
    and named: "name_of exe \<noteq> []"
  shows "\<exists>k data. 1 \<le> k \<and> map_of (staging w1) icon_name = Some data \<and>
       \<not> target_exists w (numbered_name (py_stem (name_of exe)) (py_suffix icon_name) k) \<and>
       (\<forall>j. 1 \<le> j \<and> j < k \<longrightarrow>
          target_exists w (numbered_name (py_stem (name_of exe)) (py_suffix icon_name) j)) \<and>
       extract_icons_loop ev exe only_largest idx num ((inner, sz) # rest) w =
         (let free = numbered_name (py_stem (name_of exe)) (py_suffix icon_name) k;
              w2 = (say (Saving_icon free) w1)
                     \<lparr>staging := AList.delete icon_name (staging w1),
                      outdir := AList.update free data (outdir w)\<rparr>
          in if only_largest then Inr (num + 1, w2)
             else extract_icons_loop ev exe only_largest (idx + 1) (num + 1) rest w2)"
proof -
  let ?base = "py_stem (name_of exe)"
  from named have base: "?base \<noteq> []" by (simp add: py_stem_nonempty)
  from extract_icon_from_exe_Some [OF got] obtain data where
    sfx: "py_suffix icon_name \<noteq> []" and data: "map_of (staging w1) icon_name = Some data"
    by blast
  from py_suffix_shape [OF sfx] obtain ext where
    ext: "ext \<noteq> []" "CHR ''.'' \<notin> set ext" "py_suffix icon_name = CHR ''.'' # ext" by blast
  from extract_icon_from_exe_frame [OF got]
  have frame: "outdir w1 = outdir w" "staging_exists w1 = staging_exists w"
    by (simp_all add: say_fields)
  then have same: "target_exists w1 = target_exists w" by (rule target_exists_frame)
  from probe_first_free [OF target_exists_finite [of w] base ext(1) ext(2)]
  obtain k where k: "1 \<le> k"
    "probe_target (target_exists w) (py_stem (?base @ CHR ''.'' # ext)) 1 (?base @ CHR ''.'' # ext)
       = Some (numbered_name ?base (CHR ''.'' # ext) k)"
    "\<not> target_exists w (numbered_name ?base (CHR ''.'' # ext) k)"
    "\<forall>j. 1 \<le> j \<and> j < k \<longrightarrow> target_exists w (numbered_name ?base (CHR ''.'' # ext) j)"
    by blast
  let ?free = "numbered_name ?base (py_suffix icon_name) k"
  from k(2) same ext(3)
  have probe: "probe_target (target_exists w1) (py_stem (?base @ py_suffix icon_name)) 1
                 (?base @ py_suffix icon_name) = Some ?free" by simp
  have loop: "extract_icons_loop ev exe only_largest idx num ((inner, sz) # rest) w =
         (let free = ?free;
              w2 = (say (Saving_icon free) w1)
                     \<lparr>staging := AList.delete icon_name (staging w1),
                      outdir := AList.update free data (outdir w)\<rparr>
          in if only_largest then Inr (num + 1, w2)
             else extract_icons_loop ev exe only_largest (idx + 1) (num + 1) rest w2)"
    using got probe data frame(1)
    by (simp add: Let_def move_to_output_def say_fields)
  from k(1) k(3) k(4) data loop ext(3)
  show ?thesis by (intro exI [of _ k] exI [of _ data]) simp
qed

lemma extract_icons_loop_no_divergence:
  assumes "name_of exe \<noteq> []"
  shows "extract_icons_loop ev exe only_largest idx num entries w \<noteq> Inl Diverged"
proof (induction entries arbitrary: idx num w)
  case Nil
  show ?case by simp
next
  case (Cons entry entries)
  obtain inner sz where entry: "entry = (inner, sz)" by (cases entry)
  let ?w0 = "say (Extracting_icon idx inner sz) w"
  show ?case
  proof (cases "extract_icon_from_exe ev exe inner ?w0")
    case (Inl e)
    with entry show ?thesis by simp
  next
    case (Inr r)
    obtain got w1 where r: "r = (got, w1)" by (cases r)
    show ?thesis
    proof (cases got)
      case None
      with Inr r entry Cons.IH show ?thesis by simp
    next
      case (Some icon_name)
      with Inr r have "extract_icon_from_exe ev exe inner ?w0 = Inr (Some icon_name, w1)" by simp
      from extract_icons_loop_success_turn [OF this assms, of only_largest num entries]
      obtain w2 where eq: "extract_icons_loop ev exe only_largest idx num ((inner, sz) # entries) w =
          (if only_largest then Inr (num + 1, w2)
           else extract_icons_loop ev exe only_largest (idx + 1) (num + 1) entries w2)"
        by (auto simp add: Let_def)
      show ?thesis
      proof (cases only_largest)
        case True
        with eq show ?thesis unfolding entry by (simp del: extract_icons_loop.simps)
      next
        case False
        with eq Cons.IH [of "idx + 1" "num + 1" w2] show ?thesis
          unfolding entry by (simp del: extract_icons_loop.simps)
      qed
    qed
  qed
qed

lemma process_exes_no_divergence:
  assumes "\<forall>exe \<in> set exes. name_of exe \<noteq> []"
  shows "process_exes ev only_largest idx num exes w \<noteq> Inl Diverged"
  using assms
proof (induction exes arbitrary: idx num w)
  case Nil
  show ?case by simp
next
  case (Cons exe exes)
  then have named: "name_of exe \<noteq> []"
    and rest: "\<And>idx num w. process_exes ev only_largest idx num exes w \<noteq> Inl Diverged"
    by simp_all
  from extract_icons_loop_no_divergence [OF named]
  have one: "extract_icons ev exe icon_files only_largest w1 \<noteq> Inl Diverged" for icon_files w1
    by (simp add: extract_icons_def)
  show ?case
  proof (cases "find_icons_in_exe (sevenzip_list ev) exe")
    case (Inl e)
    then show ?thesis by simp
  next
    case (Inr r)
    obtain msgs icon_files where r: "r = (msgs, icon_files)" by (cases r)
    let ?w1 = "say_all msgs (say (Processing_file idx exe) w)"
    show ?thesis
    proof (cases "icon_files = []")
      case True
      with Inr r rest show ?thesis by simp
    next
      case False
      show ?thesis
      proof (cases "extract_icons ev exe icon_files only_largest ?w1")
        case (Inl e)
        with one [of icon_files ?w1] have "e \<noteq> Diverged" by auto
        with Inl \<open>find_icons_in_exe (sevenzip_list ev) exe = Inr r\<close> r False show ?thesis
          by (simp add: Let_def)
      next
        case inner: (Inr q)
        obtain k w2 where "q = (k, w2)" by (cases q)
        with inner \<open>find_icons_in_exe (sevenzip_list ev) exe = Inr r\<close> r False rest
        show ?thesis by (simp add: Let_def)
      qed
    qed
  qed
qed

section \<open>Properties of the Path Collector and of a whole run\<close>

lemma add_path_set: "set (add_path p found) = insert p (set found)"
  by (auto simp add: add_path_def)





lemma filter_paths_extension:
  "set (filter_paths resolve exts resolve_shortcuts found subpaths)
     \<subseteq> set found \<union> {q. py_lower (py_suffix (name_of q)) \<in> exts}"
proof (induction subpaths arbitrary: found)
  case Nil
  then show ?case by simp
next
  case (Cons subpath rest)
  have step: "set (filter_paths resolve exts resolve_shortcuts (add_path q found) rest)
        \<subseteq> set found \<union> {q. py_lower (py_suffix (name_of q)) \<in> exts}"
    if "py_lower (py_suffix (name_of q)) \<in> exts" for q
    using Cons.IH [of "add_path q found"] that by (auto simp add: add_path_set)
  from step Cons.IH [of found] show ?case
    by (cases resolve_shortcuts) (simp_all add: Let_def)
qed

lemma find_files_loop_extension:
  "set (snd (find_files_loop root resolve exts rec_search rs acc ps))
     \<subseteq> set (snd acc) \<union> {q. py_lower (py_suffix (name_of q)) \<in> exts}"
proof (induction ps arbitrary: acc)
  case Nil
  then show ?case by simp
next
  case (Cons p ps)
  obtain msgs found where acc: "acc = (msgs, found)" by (cases acc)
  show ?case
  proof (cases "path_exists root p")
    case False
    with Cons.IH [of "(msgs @ [No_file_exists p], found)"] acc show ?thesis by simp
  next
    case True
    with Cons.IH [of "(msgs, filter_paths resolve exts rs found (candidates root rec_search p))"]
      filter_paths_extension [of resolve exts rs found "candidates root rec_search p"] acc
    show ?thesis by auto
  qed
qed

lemma found_executables_named:
  assumes "p \<in> set (snd (found_executables root ev inputs))"
  shows "name_of p \<noteq> []"
proof -
  from assms find_files_loop_extension [of root "shortcut_target ev" "{''.exe''}" True True
      "([], [])" inputs]
  have "py_lower (py_suffix (name_of p)) = ''.exe''"
    by (auto simp add: found_executables_def find_files_with_extensions_def)
  then show ?thesis by (auto simp add: py_suffix_def py_lower_def rfind_dot_def)
qed

lemma run_extraction_no_divergence:
  "run_extraction root ev inputs only_largest w \<noteq> Inl Diverged"
proof -
  obtain msgs exes where f: "found_executables root ev inputs = (msgs, exes)"
    by (cases "found_executables root ev inputs")
  then have "\<forall>exe \<in> set exes. name_of exe \<noteq> []"
    using found_executables_named [of _ root ev inputs] by simp
  then have "process_exes ev only_largest 1 0 exes w1 \<noteq> Inl Diverged" for w1
    by (rule process_exes_no_divergence)
  with f show ?thesis
    by (auto simp add: run_extraction_def Let_def rmdir_staging_def split: sum.splits)
qed

section \<open>The claims about extraction and the run\<close>

subsection \<open>The example runs, evaluated\<close>

lemmas run_eval = run_extraction_def found_executables_def find_files_with_extensions_def
  candidates_def is_dir_def is_file_def path_exists_def glob_rec_def glob_star_def add_path_def
  name_of_def py_suffix_def py_stem_def rfind_dot_def py_lower_def lower_char_def
  extract_icons_def extract_icon_from_exe_def move_to_output_def target_exists_def
  say_def say_all_def rmdir_staging_def path_name_def path_parts_def
  example_env_def example_list_def example_extract_def example_what_def empty_world_def
  probe_target.simps show_nat.simps digit_char_def lister_eval Let_def AList.delete_eq

lemma example_listing:
  "find_icons_in_exe (sevenzip_list example_env) [''d'', ''app.exe''] =
     Inr ([], [(''r/ICON/1.ico'', 100), (''r/ICON/2'', 50)])"
  by (simp add: run_eval)

lemma example_first_run:
  "run_extraction one_exe_root example_env [[''d'']] False empty_world = Inr after_first_run"
  by (simp add: run_eval one_exe_root_def after_first_run_def)

lemma example_second_run:
  "run_extraction one_exe_root example_env [[''d'']] False after_first_run = Inr after_second_run"
  by (simp add: run_eval one_exe_root_def after_first_run_def after_second_run_def)

lemma example_largest_run:
  "run_extraction one_exe_root example_env [[''d'']] True empty_world = Inr after_largest_run"
  by (simp add: run_eval one_exe_root_def after_largest_run_def)

lemma example_crowded:
  "extract_icon_from_exe example_env [''d'', ''app.exe''] ''r/ICON/1.ico''
     (say (Extracting_icon 1 ''r/ICON/1.ico'' 100) crowded_world) =
   Inr (Some ''1.ico'',
        (say (Extracting_icon 1 ''r/ICON/1.ico'' 100) crowded_world)
          \<lparr>staging := [(''1.ico'', ''ico-bytes'')]\<rparr>)"
  by (simp add: run_eval crowded_world_def)

text \<open>
  Claim C5. After a successful extraction from an executable with a non-empty name, the
  target name is the stem of the executable followed by the suffix of the extracted file.
  The loop ends and returns the first name that does not exist in the sequence
  \<open>stem suffix\<close>, \<open>stem (2) suffix\<close>, \<open>stem (3) suffix\<close>, ...: every earlier name of the
  sequence exists, and the file is moved to that name. With \<open>app.ico\<close> and
  \<open>app (2).ico\<close> present, the icon of \<open>app.exe\<close> is written as \<open>app (3).ico\<close>.
\<close>

theorem collision_numbering:
  "(extract_icon_from_exe ev exe inner (say (Extracting_icon idx inner sz) w)
      = Inr (Some icon_name, w1) \<and> name_of exe \<noteq> [] \<longrightarrow>
    (\<exists>k data. 1 \<le> k \<and> map_of (staging w1) icon_name = Some data \<and>
       \<not> target_exists w (numbered_name (py_stem (name_of exe)) (py_suffix icon_name) k) \<and>
       (\<forall>j. 1 \<le> j \<and> j < k \<longrightarrow>
          target_exists w (numbered_name (py_stem (name_of exe)) (py_suffix icon_name) j)) \<and>
       extract_icons_loop ev exe only_largest idx num ((inner, sz) # rest) w =
         (let free = numbered_name (py_stem (name_of exe)) (py_suffix icon_name) k;
              w2 = (say (Saving_icon free) w1)
                     \<lparr>staging := AList.delete icon_name (staging w1),
                      outdir := AList.update free data (outdir w)\<rparr>
          in if only_largest then Inr (num + 1, w2)
             else extract_icons_loop ev exe only_largest (idx + 1) (num + 1) rest w2))) \<and>
   extract_icons example_env [''d'', ''app.exe''] [(''r/ICON/1.ico'', 100)] True crowded_world =
     Inr (1, \<lparr>log = [Extracting_icon 1 ''r/ICON/1.ico'' 100, Saving_icon ''app (3).ico''],
              staging_exists = False, staging = [],
              outdir = [(''app.ico'', ''old one''), (''app (2).ico'', ''old two''),
                        (''app (3).ico'', ''ico-bytes'')]\<rparr>)"
proof (intro conjI impI)
  assume "extract_icon_from_exe ev exe inner (say (Extracting_icon idx inner sz) w)
      = Inr (Some icon_name, w1) \<and> name_of exe \<noteq> []"
  then show "\<exists>k data. 1 \<le> k \<and> map_of (staging w1) icon_name = Some data \<and>
       \<not> target_exists w (numbered_name (py_stem (name_of exe)) (py_suffix icon_name) k) \<and>
       (\<forall>j. 1 \<le> j \<and> j < k \<longrightarrow>
          target_exists w (numbered_name (py_stem (name_of exe)) (py_suffix icon_name) j)) \<and>
       extract_icons_loop ev exe only_largest idx num ((inner, sz) # rest) w =
         (let free = numbered_name (py_stem (name_of exe)) (py_suffix icon_name) k;
              w2 = (say (Saving_icon free) w1)
                     \<lparr>staging := AList.delete icon_name (staging w1),
                      outdir := AList.update free data (outdir w)\<rparr>
          in if only_largest then Inr (num + 1, w2)
             else extract_icons_loop ev exe only_largest (idx + 1) (num + 1) rest w2)"
    using extract_icons_loop_success_turn by blast
next
  show "extract_icons example_env [''d'', ''app.exe''] [(''r/ICON/1.ico'', 100)] True crowded_world =
     Inr (1, \<lparr>log = [Extracting_icon 1 ''r/ICON/1.ico'' 100, Saving_icon ''app (3).ico''],
              staging_exists = False, staging = [],
              outdir = [(''app.ico'', ''old one''), (''app (2).ico'', ''old two''),
                        (''app (3).ico'', ''ico-bytes'')]\<rparr>)"
    by (simp add: run_eval crowded_world_def)
qed

theorem collision_numbering_witness:
  "extract_icon_from_exe example_env [''d'', ''app.exe''] ''r/ICON/1.ico''
     (say (Extracting_icon 1 ''r/ICON/1.ico'' 100) crowded_world) =
   Inr (Some ''1.ico'',
        (say (Extracting_icon 1 ''r/ICON/1.ico'' 100) crowded_world)
          \<lparr>staging := [(''1.ico'', ''ico-bytes'')]\<rparr>) \<and>
   name_of [''d'', ''app.exe''] \<noteq> [] \<and>
   (\<exists>k. 1 \<le> k \<and>
      \<not> target_exists crowded_world
          (numbered_name (py_stem (name_of [''d'', ''app.exe''])) (py_suffix ''1.ico'') k) \<and>
      (\<forall>j. 1 \<le> j \<and> j < k \<longrightarrow>
         target_exists crowded_world
           (numbered_name (py_stem (name_of [''d'', ''app.exe''])) (py_suffix ''1.ico'') j)))"
proof -
  have nm: "name_of [''d'', ''app.exe''] \<noteq> []" by (simp add: name_of_def)
  from collision_numbering [of example_env "[''d'', ''app.exe'']" "''r/ICON/1.ico''" 1 100
      crowded_world "''1.ico''"
      "(say (Extracting_icon 1 ''r/ICON/1.ico'' 100) crowded_world)
          \<lparr>staging := [(''1.ico'', ''ico-bytes'')]\<rparr>" True 0 "[]"]
    example_crowded nm
  show ?thesis by blast
qed

text \<open>
  Claim C6. No output file is overwritten. The name the loop returns does not exist, so
  the move that follows leaves every file of the output directory as it was. Whatever
  \<open>extract_icons\<close> or the loop over all executables returns, every file that was in the
  output directory before is there afterwards with the same bytes, and the number of
  files in the output directory has grown by the number of icons extracted. A whole run
  first sends whatever has the name of the staging directory to the trash and from then
  on keeps every file. So a second run with the same inputs and the same output directory
  keeps every file of the first run and adds as many new files as it reports; in the
  example it adds \<open>app (2).ico\<close> and \<open>app (2).png\<close> beside \<open>app.ico\<close> and \<open>app.png\<close>.
  No run stays in the naming loop for ever.
\<close>

theorem output_never_overwritten:
  "(probe_target (target_exists w1) original_stem i target_name = Some free \<and>
    move_to_output icon_name free (say (Saving_icon free) w1) = Inr w2 \<longrightarrow>
      map_of (outdir w1) \<subseteq>\<^sub>m map_of (outdir w2)) \<and>
   (extract_icons ev exe entries only_largest w = Inr (n, w') \<longrightarrow>
      map_of (outdir w) \<subseteq>\<^sub>m map_of (outdir w') \<and>
      card (dom (map_of (outdir w'))) = card (dom (map_of (outdir w))) + n) \<and>
   (process_exes ev only_largest idx 0 exes u = Inr (k, u') \<longrightarrow>
      map_of (outdir u) \<subseteq>\<^sub>m map_of (outdir u') \<and>
      card (dom (map_of (outdir u'))) = card (dom (map_of (outdir u))) + k) \<and>
   (run_extraction root ev inputs only_largest v = Inr v' \<longrightarrow>
      map_of (AList.delete ''temp-output'' (outdir v)) \<subseteq>\<^sub>m map_of (outdir v') \<and>
      (\<exists>n m. last (log v') = Summary n m \<and>
             card (dom (map_of (outdir v'))) =
               card (dom (map_of (AList.delete ''temp-output'' (outdir v)))) + n)) \<and>
   (run_extraction root ev inputs only_largest v = Inr v' \<and>
    run_extraction root ev inputs only_largest v' = Inr v'' \<longrightarrow>
      map_of (outdir v') \<subseteq>\<^sub>m map_of (outdir v'') \<and>
      (\<exists>n m. last (log v'') = Summary n m \<and>
             card (dom (map_of (outdir v''))) = card (dom (map_of (outdir v'))) + n)) \<and>
   run_extraction root ev inputs only_largest v \<noteq> Inl Diverged"
proof (intro conjI impI)
  assume a: "probe_target (target_exists w1) original_stem i target_name = Some free \<and>
    move_to_output icon_name free (say (Saving_icon free) w1) = Inr w2"
  then have "\<not> target_exists w1 free" using probe_result_free by blast
  from fresh_name_extends [OF this]
  have "map_of (outdir w1) \<subseteq>\<^sub>m map_of (AList.update free data (outdir w1))" for data by blast
  moreover from a obtain data where "outdir w2 = AList.update free data (outdir w1)"
    by (auto simp add: move_to_output_def say_fields split: option.splits)
  ultimately show "map_of (outdir w1) \<subseteq>\<^sub>m map_of (outdir w2)" by simp
next
  assume "extract_icons ev exe entries only_largest w = Inr (n, w')"
  then have "extract_icons_loop ev exe only_largest 1 0 entries w = Inr (n, w')"
    by (simp add: extract_icons_def)
  from extract_icons_loop_outdir [OF this]
  show "map_of (outdir w) \<subseteq>\<^sub>m map_of (outdir w')"
    and "card (dom (map_of (outdir w'))) = card (dom (map_of (outdir w))) + n" by simp_all
next
  assume "process_exes ev only_largest idx 0 exes u = Inr (k, u')"
  from process_exes_outdir [OF this]
  show "map_of (outdir u) \<subseteq>\<^sub>m map_of (outdir u')"
    and "card (dom (map_of (outdir u'))) = card (dom (map_of (outdir u))) + k" by simp_all
next
  assume "run_extraction root ev inputs only_largest v = Inr v'"
  from run_extraction_outdir [OF this]
  show "map_of (AList.delete ''temp-output'' (outdir v)) \<subseteq>\<^sub>m map_of (outdir v')"
    and "\<exists>n m. last (log v') = Summary n m \<and>
             card (dom (map_of (outdir v'))) =
               card (dom (map_of (AList.delete ''temp-output'' (outdir v)))) + n" by blast+
next
  assume both: "run_extraction root ev inputs only_largest v = Inr v' \<and>
    run_extraction root ev inputs only_largest v' = Inr v''"
  then have first: "run_extraction root ev inputs only_largest v = Inr v'"
    and second: "run_extraction root ev inputs only_largest v' = Inr v''" by simp_all
  from run_extraction_no_staging_name [OF first]
  have same: "AList.delete ''temp-output'' (outdir v') = outdir v'" .
  from run_extraction_outdir [OF second]
  show "map_of (outdir v') \<subseteq>\<^sub>m map_of (outdir v'')"
    and "\<exists>n m. last (log v'') = Summary n m \<and>
             card (dom (map_of (outdir v''))) = card (dom (map_of (outdir v'))) + n"
    unfolding same by blast+
next
  show "run_extraction root ev inputs only_largest v \<noteq> Inl Diverged"
    by (rule run_extraction_no_divergence)
qed

lemma example_probe_and_move:
  "probe_target (target_exists (crowded_world\<lparr>staging := [(''1.ico'', ''ico-bytes'')]\<rparr>))
     ''app'' 1 ''app.ico'' = Some ''app (3).ico'' \<and>
   move_to_output ''1.ico'' ''app (3).ico''
     (say (Saving_icon ''app (3).ico'') (crowded_world\<lparr>staging := [(''1.ico'', ''ico-bytes'')]\<rparr>))
   = Inr \<lparr>log = [Saving_icon ''app (3).ico''], staging_exists = False, staging = [],
          outdir = [(''app.ico'', ''old one''), (''app (2).ico'', ''old two''),
                    (''app (3).ico'', ''ico-bytes'')]\<rparr>"
  by (simp add: run_eval crowded_world_def)

theorem output_never_overwritten_witness:
  "run_extraction one_exe_root example_env [[''d'']] False empty_world = Inr after_first_run \<and>
   run_extraction one_exe_root example_env [[''d'']] False after_first_run = Inr after_second_run \<and>
   outdir after_first_run = [(''app.ico'', ''ico-bytes''), (''app.png'', ''png-bytes'')] \<and>
   outdir after_second_run =
     [(''app.ico'', ''ico-bytes''), (''app.png'', ''png-bytes''),
      (''app (2).ico'', ''ico-bytes''), (''app (2).png'', ''png-bytes'')] \<and>
   map_of (outdir after_first_run) \<subseteq>\<^sub>m map_of (outdir after_second_run) \<and>
   (\<exists>n m. last (log after_second_run) = Summary n m \<and>
          card (dom (map_of (outdir after_second_run))) =
            card (dom (map_of (outdir after_first_run))) + n) \<and>
   map_of (outdir crowded_world) \<subseteq>\<^sub>m
     map_of [(''app.ico'', ''old one''), (''app (2).ico'', ''old two''),
             (''app (3).ico'', ''ico-bytes'')]"
  using output_never_overwritten [where ev = example_env and exe = "[''d'', ''app.exe'']"
      and entries = "[]" and only_largest = False and w = empty_world and n = 0
      and w' = empty_world and idx = 1 and exes = "[]" and u = empty_world and k = 0
      and u' = empty_world and root = one_exe_root and inputs = "[[''d'']]"
      and v = empty_world and v' = after_first_run and v'' = after_second_run
      and ?w1.0 = "crowded_world\<lparr>staging := [(''1.ico'', ''ico-bytes'')]\<rparr>"
      and original_stem = "''app''" and i = 1 and target_name = "''app.ico''"
      and free = "''app (3).ico''" and icon_name = "''1.ico''"
      and ?w2.0 = "\<lparr>log = [Saving_icon ''app (3).ico''], staging_exists = False, staging = [],
          outdir = [(''app.ico'', ''old one''), (''app (2).ico'', ''old two''),
                    (''app (3).ico'', ''ico-bytes'')]\<rparr>"]
    example_first_run example_second_run example_probe_and_move
  by (simp add: after_first_run_def after_second_run_def extract_icons_def crowded_world_def
      empty_world_def)

text \<open>
  Claim C7. With the largest-only flag set the orchestrator produces at most one icon for
  an executable: either no entry can be extracted and the output directory is unchanged,
  or exactly one file is added, holding the bytes of the first entry of the list that can
  be extracted, which for a list sorted largest first is the largest such entry. With the
  flag unset every entry of the list is attempted, in order, and the count is the number
  of entries that can be extracted. For \<open>app.exe\<close>, whose entries have sizes 100 and 50,
  a full run writes two files and a largest-only run writes one, the entry of size 100.
  For an executable with a name the orchestrator never stays in the naming loop for ever.
\<close>

theorem largest_only_mode:
  "(extract_icons ev exe entries True w = Inr (n, w') \<longrightarrow>
      n \<le> 1 \<and>
      ((n = 0 \<and> (\<forall>e \<in> set entries. \<not> extractable ev exe (fst e)) \<and> outdir w' = outdir w) \<or>
       (\<exists>pre inner sz post data name.
          n = 1 \<and> entries = pre @ (inner, sz) # post \<and>
          (\<forall>e \<in> set pre. \<not> extractable ev exe (fst e)) \<and> extractable ev exe inner \<and>
          sevenzip_extract ev exe inner = Some data \<and> map_of (outdir w) name = None \<and>
          outdir w' = AList.update name data (outdir w) \<and>
          (sorted_wrt (\<lambda>a b. snd b \<le> snd a) entries \<longrightarrow>
             (\<forall>e \<in> set entries. extractable ev exe (fst e) \<longrightarrow> snd e \<le> sz))))) \<and>
   (extract_icons ev exe entries False v = Inr (m, v') \<longrightarrow>
      filter is_attempt (log v') =
        filter is_attempt (log v) @
        map (\<lambda>(i, (p, s)). Extracting_icon i p s) (enumerate 1 entries) \<and>
      m = length (filter (\<lambda>e. extractable ev exe (fst e)) entries)) \<and>
   find_icons_in_exe (sevenzip_list example_env) [''d'', ''app.exe''] =
     Inr ([], [(''r/ICON/1.ico'', 100), (''r/ICON/2'', 50)]) \<and>
   run_extraction one_exe_root example_env [[''d'']] False empty_world = Inr after_first_run \<and>
   outdir after_first_run = [(''app.ico'', ''ico-bytes''), (''app.png'', ''png-bytes'')] \<and>
   run_extraction one_exe_root example_env [[''d'']] True empty_world = Inr after_largest_run \<and>
   outdir after_largest_run = [(''app.ico'', ''ico-bytes'')] \<and>
   sevenzip_extract example_env [''d'', ''app.exe''] ''r/ICON/1.ico'' = Some ''ico-bytes'' \<and>
   (name_of exe \<noteq> [] \<longrightarrow> extract_icons ev exe entries flag u \<noteq> Inl Diverged)"
proof (intro conjI impI)
  assume "name_of exe \<noteq> []"
  then show "extract_icons ev exe entries flag u \<noteq> Inl Diverged"
    by (simp add: extract_icons_def extract_icons_loop_no_divergence)
next
  assume "extract_icons ev exe entries True w = Inr (n, w')"
  then have loop: "extract_icons_loop ev exe True 1 0 entries w = Inr (n, w')"
    by (simp add: extract_icons_def)
  from only_largest_first_success [OF loop]
  show "n \<le> 1" by auto
  from only_largest_first_success [OF loop]
  show "(n = 0 \<and> (\<forall>e \<in> set entries. \<not> extractable ev exe (fst e)) \<and> outdir w' = outdir w) \<or>
       (\<exists>pre inner sz post data name.
          n = 1 \<and> entries = pre @ (inner, sz) # post \<and>
          (\<forall>e \<in> set pre. \<not> extractable ev exe (fst e)) \<and> extractable ev exe inner \<and>
          sevenzip_extract ev exe inner = Some data \<and> map_of (outdir w) name = None \<and>
          outdir w' = AList.update name data (outdir w) \<and>
          (sorted_wrt (\<lambda>a b. snd b \<le> snd a) entries \<longrightarrow>
             (\<forall>e \<in> set entries. extractable ev exe (fst e) \<longrightarrow> snd e \<le> sz)))"
  proof
    assume "n = 0 \<and> (\<forall>e \<in> set entries. \<not> extractable ev exe (fst e)) \<and> outdir w' = outdir w"
    then show ?thesis by blast
  next
    assume "\<exists>pre inner sz post data name.
            n = 0 + 1 \<and> entries = pre @ (inner, sz) # post \<and>
            (\<forall>e \<in> set pre. \<not> extractable ev exe (fst e)) \<and> extractable ev exe inner \<and>
            sevenzip_extract ev exe inner = Some data \<and> map_of (outdir w) name = None \<and>
            outdir w' = AList.update name data (outdir w)"
    then obtain pre inner sz post data name where
      r: "n = 1" "entries = pre @ (inner, sz) # post"
        "\<forall>e \<in> set pre. \<not> extractable ev exe (fst e)" "extractable ev exe inner"
        "sevenzip_extract ev exe inner = Some data" "map_of (outdir w) name = None"
        "outdir w' = AList.update name data (outdir w)"
      by auto
    have "sorted_wrt (\<lambda>a b. snd b \<le> snd a) entries \<longrightarrow>
             (\<forall>e \<in> set entries. extractable ev exe (fst e) \<longrightarrow> snd e \<le> sz)"
      using first_success_is_largest [of pre inner sz post "extractable ev exe"] r(2) r(3)
      by blast
    with r show ?thesis by blast
  qed
next
  assume "extract_icons ev exe entries False v = Inr (m, v')"
  then have loop: "extract_icons_loop ev exe False 1 0 entries v = Inr (m, v')"
    by (simp add: extract_icons_def)
  from every_entry_attempted [OF loop]
  show "filter is_attempt (log v') =
        filter is_attempt (log v) @
        map (\<lambda>(i, (p, s)). Extracting_icon i p s) (enumerate 1 entries)"
    and "m = length (filter (\<lambda>e. extractable ev exe (fst e)) entries)" by simp_all
next
  show "find_icons_in_exe (sevenzip_list example_env) [''d'', ''app.exe''] =
     Inr ([], [(''r/ICON/1.ico'', 100), (''r/ICON/2'', 50)])" by (rule example_listing)
next
  show "run_extraction one_exe_root example_env [[''d'']] False empty_world = Inr after_first_run"
    by (rule example_first_run)
next
  show "outdir after_first_run = [(''app.ico'', ''ico-bytes''), (''app.png'', ''png-bytes'')]"
    by (simp add: after_first_run_def)
next
  show "run_extraction one_exe_root example_env [[''d'']] True empty_world = Inr after_largest_run"
    by (rule example_largest_run)
next
  show "outdir after_largest_run = [(''app.ico'', ''ico-bytes'')]"
    by (simp add: after_largest_run_def)
next
  show "sevenzip_extract example_env [''d'', ''app.exe''] ''r/ICON/1.ico'' = Some ''ico-bytes''"
    by (simp add: example_env_def example_extract_def)
qed

lemma example_extract_icons_largest:
  "extract_icons example_env [''d'', ''app.exe''] [(''r/ICON/1.ico'', 100), (''r/ICON/2'', 50)]
     True empty_world =
   Inr (1, \<lparr>log = [Extracting_icon 1 ''r/ICON/1.ico'' 100, Saving_icon ''app.ico''],
            staging_exists = False, staging = [], outdir = [(''app.ico'', ''ico-bytes'')]\<rparr>)"
  by (simp add: run_eval)

lemma example_extract_icons_all:
  "extract_icons example_env [''d'', ''app.exe''] [(''r/ICON/1.ico'', 100), (''r/ICON/2'', 50)]
     False empty_world =
   Inr (2, \<lparr>log = [Extracting_icon 1 ''r/ICON/1.ico'' 100, Saving_icon ''app.ico'',
                   Extracting_icon 2 ''r/ICON/2'' 50, Guessing_extension, Saving_icon ''app.png''],
            staging_exists = False, staging = [],
            outdir = [(''app.ico'', ''ico-bytes''), (''app.png'', ''png-bytes'')]\<rparr>)"
  by (simp add: run_eval)

theorem largest_only_mode_witness:
  "extract_icons example_env [''d'', ''app.exe''] [(''r/ICON/1.ico'', 100), (''r/ICON/2'', 50)]
     True empty_world =
   Inr (1, \<lparr>log = [Extracting_icon 1 ''r/ICON/1.ico'' 100, Saving_icon ''app.ico''],
            staging_exists = False, staging = [], outdir = [(''app.ico'', ''ico-bytes'')]\<rparr>) \<and>
   extract_icons example_env [''d'', ''app.exe''] [(''r/ICON/1.ico'', 100), (''r/ICON/2'', 50)]
     False empty_world =
   Inr (2, \<lparr>log = [Extracting_icon 1 ''r/ICON/1.ico'' 100, Saving_icon ''app.ico'',
                   Extracting_icon 2 ''r/ICON/2'' 50, Guessing_extension, Saving_icon ''app.png''],
            staging_exists = False, staging = [],
            outdir = [(''app.ico'', ''ico-bytes''), (''app.png'', ''png-bytes'')]\<rparr>) \<and>
   (1::nat) \<le> 1 \<and>
   (2::nat) = length (filter (\<lambda>e. extractable example_env [''d'', ''app.exe''] (fst e))
                      [(''r/ICON/1.ico'', 100 :: int), (''r/ICON/2'', 50)])"
  using largest_only_mode [where ev = example_env and exe = "[''d'', ''app.exe'']"
      and entries = "[(''r/ICON/1.ico'', 100), (''r/ICON/2'', 50)]" and w = empty_world and n = 1
      and w' = "\<lparr>log = [Extracting_icon 1 ''r/ICON/1.ico'' 100, Saving_icon ''app.ico''],
        staging_exists = False, staging = [], outdir = [(''app.ico'', ''ico-bytes'')]\<rparr>"
      and v = empty_world and m = 2
      and v' = "\<lparr>log = [Extracting_icon 1 ''r/ICON/1.ico'' 100, Saving_icon ''app.ico'',
               Extracting_icon 2 ''r/ICON/2'' 50, Guessing_extension, Saving_icon ''app.png''],
        staging_exists = False, staging = [],
        outdir = [(''app.ico'', ''ico-bytes''), (''app.png'', ''png-bytes'')]\<rparr>"
      and flag = True and u = empty_world]
    example_extract_icons_largest example_extract_icons_all
  by (simp add: name_of_def)

text \<open>
  Claim C8. When the list command exits with a non-zero status for an executable, the
  Resource Lister prints the failure and returns the empty list, and the Run Controller
  prints that no icons were found and goes on with the remaining executables: the
  directories are as they were and the count is unchanged.
\<close>

theorem list_failure_is_no_icons:
  "returncode (sevenzip_list ev exe) \<noteq> 0 \<longrightarrow>
     find_icons_in_exe (sevenzip_list ev) exe = Inr ([Failed_to_list exe], []) \<and>
     process_exes ev only_largest idx num (exe # rest) w =
       process_exes ev only_largest (idx + 1) num rest
         (say No_icon_files (say (Failed_to_list exe) (say (Processing_file idx exe) w)))"
  by (simp add: find_icons_in_exe_def say_def)

theorem list_failure_is_no_icons_witness:
  "returncode (sevenzip_list example_env [''d'', ''bad.exe'']) \<noteq> 0 \<and>
   find_icons_in_exe (sevenzip_list example_env) [''d'', ''bad.exe'']
     = Inr ([Failed_to_list [''d'', ''bad.exe'']], []) \<and>
   process_exes example_env True 1 0 [[''d'', ''bad.exe''], [''d'', ''app.exe'']] empty_world =
     Inr (1, \<lparr>log = [Processing_file 1 [''d'', ''bad.exe''], Failed_to_list [''d'', ''bad.exe''],
                     No_icon_files, Processing_file 2 [''d'', ''app.exe''],
                     Extracting_icon 1 ''r/ICON/1.ico'' 100, Saving_icon ''app.ico''],
              staging_exists = False, staging = [], outdir = [(''app.ico'', ''ico-bytes'')]\<rparr>)"
proof -
  have fails: "returncode (sevenzip_list example_env [''d'', ''bad.exe'']) \<noteq> 0"
    by (simp add: example_env_def example_list_def name_of_def)
  from list_failure_is_no_icons [of example_env "[''d'', ''bad.exe'']" True 1 0
      "[[''d'', ''app.exe'']]" empty_world] fails
  show ?thesis by (simp add: run_eval)
qed

text \<open>
  Claim C2 fails on the code. When the format of an extracted file without extension
  cannot be sniffed, \<open>extract_icon_from_exe\<close> returns nothing and leaves the file in the
  staging directory; the orchestrator ends with a staging directory that is not empty,
  and the final \<open>rmdir\<close> of the run raises \<open>OSError\<close>. The run on \<open>odd.exe\<close> shows both.
\<close>

theorem staging_left_nonempty_on_sniff_failure:
  "extract_icons example_env [''d'', ''odd.exe''] [(''r/ICON/3'', 7)] False
     (empty_world\<lparr>staging_exists := True\<rparr>) =
   Inr (0, \<lparr>log = [Extracting_icon 1 ''r/ICON/3'' 7, Guessing_extension, Failed_to_guess ''3'',
                   Failed_to_extract],
            staging_exists = True, staging = [(''3'', ''unknown-bytes'')], outdir = []\<rparr>) \<and>
   run_extraction odd_exe_root example_env [[''d'']] False empty_world = Inl (Raised OSError)"
  by (simp add: run_eval odd_exe_root_def)
section \<open>The claims about the Path Collector and the command line\<close>





text \<open>
  Claim C1 fails on the code. The command line reads the \<open>-r\<close> flag and drops it:
  \<open>run_extraction\<close> calls the collector with its default, which is the recursive scan.
  A run is the same with and without the flag, and a run without it on the directory
  \<open>d\<close> finds and processes \<open>d/sub/deep.exe\<close>, which a top-level scan by the collector
  leaves out.
\<close>

theorem cli_scan_ignores_recursive_flag:
  "main root ev (a\<lparr>recursive := b\<rparr>) w = main root ev a w \<and>
   snd (find_files_with_extensions nested_root (shortcut_target example_env) [[''d'']]
          {''.exe''} False True) = [[''d'', ''app.exe'']] \<and>
   snd (found_executables nested_root example_env (paths args_plain)) =
     [[''d'', ''app.exe''], [''d'', ''sub'', ''deep.exe'']] \<and>
   main nested_root example_env args_plain empty_world =
     main nested_root example_env args_recursive empty_world \<and>
   main nested_root example_env args_plain empty_world =
     Some (Inr \<lparr>log = [Input_path 1 [''d''], Found_executable 1 [''d'', ''app.exe''],
                      Found_executable 2 [''d'', ''sub'', ''deep.exe''],
                      Processing_file 1 [''d'', ''app.exe''],
                      Extracting_icon 1 ''r/ICON/1.ico'' 100, Saving_icon ''app.ico'',
                      Extracting_icon 2 ''r/ICON/2'' 50, Guessing_extension,
                      Saving_icon ''app.png'',
                      Processing_file 2 [''d'', ''sub'', ''deep.exe''],
                      Failed_to_list [''d'', ''sub'', ''deep.exe''], No_icon_files,
                      Summary 2 2],
               staging_exists = False, staging = [],
               outdir = [(''app.ico'', ''ico-bytes''), (''app.png'', ''png-bytes'')]\<rparr>)"
proof (intro conjI)
  show "main root ev (a\<lparr>recursive := b\<rparr>) w = main root ev a w"
    by (simp add: main_def Let_def split: option.splits)
qed (simp_all add: main_def try_find_7zip_def run_eval nested_root_def args_plain_def
      args_recursive_def)

end
